theory Spec2Isabelle
  imports Main
begin

section \<open>Data model\<close>

text \<open>
  A Python \<open>str\<close> is a list of Unicode code points, a \<open>bytes\<close> value a list of 8-bit
  characters. \<open>ustr\<close> writes an ASCII literal as a \<open>str\<close>.
\<close>

type_synonym pystr = "nat list"
type_synonym bytes = "char list"

abbreviation ustr :: "string \<Rightarrow> pystr" where
  "ustr s \<equiv> map of_char s"

definition NL :: nat where "NL = 10"
definition CR :: nat where "CR = 13"
definition bNL :: char where "bNL = CHR 0x0A"
definition bCR :: char where "bCR = CHR 0x0D"

text \<open>
  The exceptions the program can raise: \<open>subprocess.CalledProcessError(returncode, cmd)\<close>,
  the \<open>AssertionError\<close> of the constructor, the \<open>UnicodeDecodeError\<close> of a strict
  \<open>bytes.decode\<close>, and the \<open>SystemExit\<close> of the argument parser.
\<close>

datatype error =
    CalledProcessError int "pystr list"
  | AssertionError
  | UnicodeDecodeError
  | SystemExit int

text \<open>
  The two ways the program starts a process: \<open>Popen cmd cwd\<close> is
  \<open>subprocess.Popen(cmd, cwd=cwd, stdout=PIPE, stderr=STDOUT)\<close> as \<open>execute_cmd\<close> calls it,
  \<open>CheckOutput cmd cwd\<close> is \<open>subprocess.check_output(cmd, cwd=cwd)\<close>.
\<close>

datatype call =
    Popen "pystr list" "pystr option"
  | CheckOutput "pystr list" "pystr option"

type_synonym history = "call list"

text \<open>
  The outside world. A run is sequential and deterministic, so what a process prints and
  the status it exits with are a function of the processes run before it (the history) and
  of the call; likewise whether a path exists. The two codecs are those of
  \<open>bytes.decode('utf8', 'replace')\<close> (total) and \<open>bytes.decode('utf-8')\<close> (raises on
  malformed input). Starting a process is taken to succeed.
\<close>

record env =
  proc :: "history \<Rightarrow> call \<Rightarrow> bytes \<times> int"
  path_exists :: "history \<Rightarrow> pystr \<Rightarrow> bool"
  decode_replace :: "bytes \<Rightarrow> pystr"
  decode_strict :: "bytes \<Rightarrow> pystr option"

text \<open>
  A generator run to exhaustion, as \<open>main\<close> drives it: from the history so far it gives
  the lines it yielded, the history after it and the exception that ended it, if any.
\<close>

type_synonym run = "pystr list \<times> history \<times> error option"
type_synonym gen = "history \<Rightarrow> run"

definition lines_of :: "run \<Rightarrow> pystr list" where
  "lines_of r = fst r"

definition hist_of :: "run \<Rightarrow> history" where
  "hist_of r = fst (snd r)"

definition err_of :: "run \<Rightarrow> error option" where
  "err_of r = snd (snd r)"

definition pass :: gen where
  "pass h = ([], h, None)"

definition raise :: "error \<Rightarrow> gen" where
  "raise e h = ([], h, Some e)"

text \<open>\<open>then_gen f g\<close>: statement \<open>f\<close> followed by statement \<open>g\<close>; an exception in \<open>f\<close> skips \<open>g\<close>.\<close>

definition then_gen :: "gen \<Rightarrow> gen \<Rightarrow> gen" where
  "then_gen f g h =
     (case f h of
        (ls, h1, Some e) \<Rightarrow> (ls, h1, Some e)
      | (ls, h1, None) \<Rightarrow> (case g h1 of (ls2, h2, r) \<Rightarrow> (ls @ ls2, h2, r)))"

text \<open>\<open>try_except f handler\<close>: \<open>try: f except ... as e: handler e\<close>.\<close>

definition try_except :: "gen \<Rightarrow> (error \<Rightarrow> gen) \<Rightarrow> gen" where
  "try_except f handler h =
     (case f h of
        (ls, h1, None) \<Rightarrow> (ls, h1, None)
      | (ls, h1, Some e) \<Rightarrow> (case handler e h1 of (ls2, h2, r) \<Rightarrow> (ls @ ls2, h2, r)))"

section \<open>execute_cmd\<close>

fun join_str :: "pystr \<Rightarrow> pystr list \<Rightarrow> pystr" where
  "join_str sep [] = []"
| "join_str sep [x] = x"
| "join_str sep (x # y # xs) = x @ sep @ join_str sep (y # xs)"

definition echo_line :: "pystr list \<Rightarrow> pystr" where
  "echo_line cmd = ustr ''$ '' @ join_str (ustr '' '') cmd @ [NL]"

text \<open>
  The read loop of \<open>execute_cmd\<close>, one byte per iteration. \<open>buf\<close> is the buffer,
  \<open>c_last\<close> the previous byte (\<open>None\<close> for the initial \<open>''\<close>, which is no byte). The
  result is the list of flushed buffers, in order, and the buffer left at end of file.
\<close>

fun read_loop :: "bytes \<Rightarrow> char option \<Rightarrow> bytes \<Rightarrow> bytes list \<times> bytes" where
  "read_loop buf c_last [] = ([], buf)"
| "read_loop buf c_last (c # cs) =
     (let flush1 = (c_last = Some bCR \<and> buf \<noteq> [] \<and> c \<noteq> bNL);
          buf1 = (if flush1 then [] else buf) @ [c];
          flush2 = (c = bNL);
          (ys, rest) = read_loop (if flush2 then [] else buf1) (Some c) cs
      in ((if flush1 then [buf] else []) @ (if flush2 then [buf1] else []) @ ys, rest))"

definition execute_cmd :: "env \<Rightarrow> pystr list \<Rightarrow> pystr option \<Rightarrow> gen" where
  "execute_cmd e cmd cwd h =
     (let (out, ret) = proc e h (Popen cmd cwd);
          (chunks, rest) = read_loop [] None out
      in (echo_line cmd # map (decode_replace e) chunks,
          h @ [Popen cmd cwd],
          if ret \<noteq> 0 then Some (CalledProcessError ret cmd) else None))"

text \<open>\<open>subprocess.check_output\<close>: the bytes of standard output, or the error of a nonzero exit.\<close>

definition check_output :: "env \<Rightarrow> pystr list \<Rightarrow> pystr option \<Rightarrow> history \<Rightarrow> (error + bytes) \<times> history" where
  "check_output e cmd cwd h =
     (let (out, ret) = proc e h (CheckOutput cmd cwd)
      in (if ret \<noteq> 0 then Inl (CalledProcessError ret cmd) else Inr out, h @ [CheckOutput cmd cwd]))"

section \<open>The regular expressions\<close>

text \<open>
  \<open>\s\<close> in a \<open>str\<close> pattern: the code points Python's \<open>re\<close> counts as whitespace.
\<close>

definition isspace :: "nat \<Rightarrow> bool" where
  "isspace c = ((9 \<le> c \<and> c \<le> 13) \<or> (28 \<le> c \<and> c \<le> 32) \<or> c = 133 \<or> c = 160 \<or> c = 5760
     \<or> (8192 \<le> c \<and> c \<le> 8202) \<or> c = 8232 \<or> c = 8233 \<or> c = 8239 \<or> c = 8287 \<or> c = 12288)"

definition letter_M :: nat where "letter_M = 77"

text \<open>
  \<open>MODIFIED_FILE_REGEX = ^\s*M\s+(.*)$\<close> with \<open>re.MULTILINE\<close>.
  \<open>modified_match_here s\<close>: the pattern after \<open>^\<close> matches at the front of \<open>s\<close>. \<open>\s*\<close>
  takes the whitespace, \<open>M\<close> is no whitespace so nothing is gained by giving some back,
  \<open>\s+\<close> needs one whitespace character, and \<open>(.*)$\<close> then always matches, up to the end
  of the line.
\<close>

fun modified_match_here :: "pystr \<Rightarrow> bool" where
  "modified_match_here [] = False"
| "modified_match_here (c # cs) =
     (if c = letter_M then (case cs of [] \<Rightarrow> False | d # _ \<Rightarrow> isspace d)
      else if isspace c then modified_match_here cs
      else False)"

text \<open>
  \<open>MODIFIED_FILE_REGEX.search(s) is not None\<close>: \<open>search\<close> tries every position from the left;
  \<open>^\<close> holds at the start of the string and after every newline (\<open>bol\<close>).
\<close>

fun modified_search :: "bool \<Rightarrow> pystr \<Rightarrow> bool" where
  "modified_search bol [] = False"
| "modified_search bol (c # cs) =
     ((bol \<and> modified_match_here (c # cs)) \<or> modified_search (c = NL) cs)"

text \<open>
  \<open>DELETED_FILE_REGEX = deleted:\s+([^\n\r]+)\<close>.
  \<open>deleted_match_here s\<close>: the pattern matches at the front of \<open>s\<close>; the result is the
  group and the length of the match. \<open>\s+\<close> is greedy and gives characters back, one at
  a time and never the first, until the group finds a character that is neither \<open>\n\<close>
  nor \<open>\r\<close>; the group then runs to the next \<open>\n\<close> or \<open>\r\<close>.
\<close>

definition not_eol :: "nat \<Rightarrow> bool" where
  "not_eol c = (c \<noteq> NL \<and> c \<noteq> CR)"

definition deleted_match_here :: "pystr \<Rightarrow> (pystr \<times> nat) option" where
  "deleted_match_here s =
     (if take 8 s = ustr ''deleted:'' then
        (let t = drop 8 s;
             n = length (takeWhile isspace t)
         in case List.find (\<lambda>k. takeWhile not_eol (drop k t) \<noteq> []) (rev [1..<Suc n]) of
              None \<Rightarrow> None
            | Some k \<Rightarrow> Some (takeWhile not_eol (drop k t), 8 + k + length (takeWhile not_eol (drop k t))))
      else None)"

text \<open>
  \<open>DELETED_FILE_REGEX.findall(s)\<close>: the groups of the matches, left to right, each search
  starting where the match before ended. \<open>skip\<close> counts the characters still inside the
  last match.
\<close>

fun findall_deleted :: "nat \<Rightarrow> pystr \<Rightarrow> pystr list" where
  "findall_deleted skip [] = []"
| "findall_deleted skip (c # cs) =
     (if 0 < skip then findall_deleted (skip - 1) cs
      else (case deleted_match_here (c # cs) of
              Some (name, len) \<Rightarrow> name # findall_deleted (len - 1) cs
            | None \<Rightarrow> findall_deleted 0 cs))"

section \<open>GitAutoSync\<close>

record GitAutoSync =
  git_url :: pystr
  branch_name :: pystr
  repo_dir :: pystr

text \<open>\<open>__init__\<close>: a \<open>str\<close> is falsy exactly when it is empty.\<close>

definition init :: "pystr \<Rightarrow> pystr \<Rightarrow> pystr \<Rightarrow> error + GitAutoSync" where
  "init url branch dir =
     (if url \<noteq> [] \<and> branch \<noteq> [] then
        Inr \<lparr>git_url = url, branch_name = branch, repo_dir = dir\<rparr>
      else Inl AssertionError)"

definition git :: "string list \<Rightarrow> pystr list" where
  "git args = map ustr (''git'' # args)"

text \<open>The command lines the program builds, each as the list it passes to the process.\<close>

definition clone_cmd :: "GitAutoSync \<Rightarrow> pystr list" where
  "clone_cmd self = git [''clone''] @ [git_url self, repo_dir self]"

definition checkout_cmd :: "GitAutoSync \<Rightarrow> pystr list" where
  "checkout_cmd self = git [''checkout''] @ [branch_name self]"

definition fetch_cmd :: "pystr list" where
  "fetch_cmd = git [''fetch'']"

definition cat_file_cmd :: "GitAutoSync \<Rightarrow> pystr \<Rightarrow> pystr list" where
  "cat_file_cmd self filename =
     git [''cat-file'', ''-e''] @ [ustr ''origin/'' @ branch_name self @ ustr '':'' @ filename]"

definition restore_cmd :: "pystr \<Rightarrow> pystr list" where
  "restore_cmd filename = git [''checkout'', ''--''] @ [filename]"

definition add_cmd :: "pystr list" where
  "add_cmd = git [''add'', ''-A'']"

definition config_email_cmd :: "pystr list" where
  "config_email_cmd = git [''config'', ''user.email'', ''\"gitautopull@email.com\"'']"

definition config_name_cmd :: "pystr list" where
  "config_name_cmd = git [''config'', ''user.name'', ''\"GitAutoPull\"'']"

definition commit_cmd :: "pystr list" where
  "commit_cmd = git [''commit'', ''-m'', ''WIP'']"

definition merge_cmd :: "GitAutoSync \<Rightarrow> pystr list" where
  "merge_cmd self = git [''merge'', ''-Xours''] @ [ustr ''origin/'' @ branch_name self]"

definition status_cmd :: "pystr list" where
  "status_cmd = git [''status'']"

definition porcelain_cmd :: "pystr list" where
  "porcelain_cmd = git [''status'', ''--porcelain'']"

text \<open>Every command but the clone runs with \<open>cwd=self.repo_dir\<close>.\<close>

definition in_repo :: "GitAutoSync \<Rightarrow> pystr option" where
  "in_repo self = Some (repo_dir self)"

definition initialize_repo :: "env \<Rightarrow> GitAutoSync \<Rightarrow> gen" where
  "initialize_repo e self =
     then_gen (execute_cmd e (clone_cmd self) None)
              (execute_cmd e (checkout_cmd self) (in_repo self))"

text \<open>
  The handlers \<open>except subprocess.CalledProcessError as git_err: if git_err.returncode != code: raise\<close>:
  an exception of another class is not caught.
\<close>

definition swallow :: "int \<Rightarrow> error \<Rightarrow> gen" where
  "swallow code git_err =
     (case git_err of
        CalledProcessError returncode c \<Rightarrow> if returncode \<noteq> code then raise git_err else pass
      | _ \<Rightarrow> raise git_err)"

definition raise_error_if_git_file_not_exists :: "env \<Rightarrow> GitAutoSync \<Rightarrow> pystr \<Rightarrow> gen" where
  "raise_error_if_git_file_not_exists e self filename =
     then_gen
       (try_except (execute_cmd e fetch_cmd (in_repo self)) (swallow 1))
       (execute_cmd e (cat_file_cmd self filename) (in_repo self))"

text \<open>The body of the loop of \<open>_reset_deleted_files\<close>, for one file name.\<close>

definition reset_file :: "env \<Rightarrow> GitAutoSync \<Rightarrow> pystr \<Rightarrow> gen" where
  "reset_file e self filename =
     try_except
       (then_gen (raise_error_if_git_file_not_exists e self filename)
                 (execute_cmd e (restore_cmd filename) (in_repo self)))
       (swallow 128)"

fun reset_files :: "env \<Rightarrow> GitAutoSync \<Rightarrow> pystr list \<Rightarrow> gen" where
  "reset_files e self [] = pass"
| "reset_files e self (filename # rest) =
     then_gen (reset_file e self filename) (reset_files e self rest)"

definition reset_deleted_files :: "env \<Rightarrow> GitAutoSync \<Rightarrow> gen" where
  "reset_deleted_files e self h =
     (case check_output e status_cmd (in_repo self) h of
        (Inl err, h1) \<Rightarrow> ([], h1, Some err)
      | (Inr status, h1) \<Rightarrow>
          (case decode_strict e status of
             None \<Rightarrow> ([], h1, Some UnicodeDecodeError)
           | Some text \<Rightarrow> reset_files e self (findall_deleted 0 text) h1))"

definition make_commit :: "env \<Rightarrow> GitAutoSync \<Rightarrow> gen" where
  "make_commit e self =
     then_gen (execute_cmd e add_cmd (in_repo self))
    (then_gen (execute_cmd e config_email_cmd (in_repo self))
    (then_gen (execute_cmd e config_name_cmd (in_repo self))
              (execute_cmd e commit_cmd (in_repo self))))"

definition save_local_changes :: "env \<Rightarrow> GitAutoSync \<Rightarrow> gen" where
  "save_local_changes e self =
     then_gen (execute_cmd e (checkout_cmd self) (in_repo self))
              (make_commit e self)"

text \<open>The handler of the merge: \<open>if e.returncode == 1: commit and merge again, else: raise\<close>.\<close>

definition merge_handler :: "env \<Rightarrow> GitAutoSync \<Rightarrow> error \<Rightarrow> gen" where
  "merge_handler e self err =
     (case err of
        CalledProcessError returncode c \<Rightarrow>
          if returncode = 1 then
            then_gen (make_commit e self) (execute_cmd e (merge_cmd self) (in_repo self))
          else raise err
      | _ \<Rightarrow> raise err)"

definition pull_and_resolve_conflicts :: "env \<Rightarrow> GitAutoSync \<Rightarrow> gen" where
  "pull_and_resolve_conflicts e self =
     then_gen (execute_cmd e (checkout_cmd self) (in_repo self))
    (then_gen (execute_cmd e fetch_cmd (in_repo self))
       (try_except (execute_cmd e (merge_cmd self) (in_repo self)) (merge_handler e self)))"

definition repo_is_dirty :: "env \<Rightarrow> GitAutoSync \<Rightarrow> history \<Rightarrow> (error + bool) \<times> history" where
  "repo_is_dirty e self h =
     (case check_output e porcelain_cmd (in_repo self) h of
        (Inl err, h1) \<Rightarrow> (Inl err, h1)
      | (Inr output, h1) \<Rightarrow>
          (case decode_strict e output of
             None \<Rightarrow> (Inl UnicodeDecodeError, h1)
           | Some text \<Rightarrow> (Inr (modified_search True text), h1)))"

definition update_repo :: "env \<Rightarrow> GitAutoSync \<Rightarrow> gen" where
  "update_repo e self =
     then_gen (reset_deleted_files e self)
       (\<lambda>h. case repo_is_dirty e self h of
               (Inl err, h1) \<Rightarrow> ([], h1, Some err)
             | (Inr dirty, h1) \<Rightarrow>
                 then_gen (if dirty then save_local_changes e self else pass)
                          (pull_and_resolve_conflicts e self) h1)"

definition pull_from_remote :: "env \<Rightarrow> GitAutoSync \<Rightarrow> gen" where
  "pull_from_remote e self h =
     (if \<not> path_exists e h (repo_dir self) then initialize_repo e self h
      else update_repo e self h)"

section \<open>main\<close>

text \<open>
  The parser of \<open>main\<close> declares \<open>--git-url\<close> (required), \<open>--branch-name\<close> (default
  \<open>'master'\<close>) and \<open>--repo-dir\<close> (default \<open>'./'\<close>), each storing one value; \<open>argparse\<close> adds
  \<open>-h\<close> and \<open>--help\<close>.
\<close>

datatype dest = Help | GitUrl | BranchName | RepoDir

definition option_strings :: "(pystr \<times> dest) list" where
  "option_strings =
     [(ustr ''--help'', Help), (ustr ''--git-url'', GitUrl),
      (ustr ''--branch-name'', BranchName), (ustr ''--repo-dir'', RepoDir)]"

text \<open>
  How \<open>argparse\<close> reads one string of the command line, the strings after the program
  name. A string that is empty, does not start with \<open>-\<close> or is \<open>-\<close> alone is an argument
  (\<open>Value\<close>). A string that starts with \<open>--\<close> is split at its first \<open>=\<close>; the part
  before is an option string or an abbreviation of one when exactly one option string
  starts with it (\<open>Opt\<close>, with the part after the \<open>=\<close> if there is one), and an option
  the parser does not have when none does (\<open>Unknown\<close>), as is a string that starts with
  \<open>-\<close> and a letter other than \<open>h\<close>. \<open>Unmodelled\<close> are the strings this model leaves out:
  \<open>--\<close> alone or before \<open>=\<close>, \<open>-h\<close> followed by more characters, a single \<open>-\<close> followed by
  anything but a letter, and a string with a space that is none of the parser's options.
\<close>

datatype arg_class = Value | Opt dest "pystr option" | Unknown | Unmodelled

definition candidates :: "pystr \<Rightarrow> dest list" where
  "candidates name = map snd (filter (\<lambda>(s, d). take (length name) s = name) option_strings)"

definition ascii_letter :: "nat \<Rightarrow> bool" where
  "ascii_letter c = ((65 \<le> c \<and> c \<le> 90) \<or> (97 \<le> c \<and> c \<le> 122))"

fun classify :: "pystr \<Rightarrow> arg_class" where
  "classify [] = Value"
| "classify [c] = Value"
| "classify (c # d # cs) =
     (if c \<noteq> 45 then Value
      else if d \<noteq> 45 then
        (if d = 104 \<and> cs = [] then Opt Help None
         else if ascii_letter d \<and> d \<noteq> 104 \<and> 32 \<notin> set cs then Unknown
         else Unmodelled)
      else if cs = [] \<or> hd cs = 61 then Unmodelled
      else (case candidates (takeWhile (\<lambda>x. x \<noteq> 61) (c # d # cs)) of
              [] \<Rightarrow> if 32 \<in> set cs then Unmodelled else Unknown
            | [dst] \<Rightarrow>
                Opt dst (case dropWhile (\<lambda>x. x \<noteq> 61) (c # d # cs) of
                           [] \<Rightarrow> None
                         | eq # explicit_arg \<Rightarrow> Some explicit_arg)
            | dst # dst' # others \<Rightarrow> Unmodelled))"

text \<open>
  The namespace while the command line is read: \<open>git_url\<close> is \<open>None\<close> until the option is
  seen, the other two start at their defaults.
\<close>

record namespace =
  ns_git_url :: "pystr option"
  ns_branch_name :: pystr
  ns_repo_dir :: pystr

definition defaults :: namespace where
  "defaults = \<lparr>ns_git_url = None, ns_branch_name = ustr ''master'', ns_repo_dir = ustr ''./''\<rparr>"

definition store :: "dest \<Rightarrow> pystr \<Rightarrow> namespace \<Rightarrow> namespace" where
  "store dst v ns =
     (case dst of
        Help \<Rightarrow> ns
      | GitUrl \<Rightarrow> ns\<lparr>ns_git_url := Some v\<rparr>
      | BranchName \<Rightarrow> ns\<lparr>ns_branch_name := v\<rparr>
      | RepoDir \<Rightarrow> ns\<lparr>ns_repo_dir := v\<rparr>)"

record arguments =
  arg_git_url :: pystr
  arg_branch_name :: pystr
  arg_repo_dir :: pystr

text \<open>
  \<open>parse_args\<close>, from left to right. An argument no option takes and an unknown option
  are kept aside (\<open>extras\<close>) and make the parser exit with status 2 at the end, as does a
  missing \<open>--git-url\<close>. The help option prints the help and exits with status 0. An
  option without \<open>=\<close> takes the next string as its value if that is an argument, and
  makes the parser exit with status 2 if there is none or it looks like an option;
  an option given again replaces its value. The result is \<open>None\<close> where the model leaves
  the command line out.
\<close>

fun consume :: "namespace \<Rightarrow> bool \<Rightarrow> pystr list \<Rightarrow> (error + arguments) option" where
  "consume ns extras [] =
     (case ns_git_url ns of
        None \<Rightarrow> Some (Inl (SystemExit 2))
      | Some url \<Rightarrow>
          if extras then Some (Inl (SystemExit 2))
          else Some (Inr \<lparr>arg_git_url = url, arg_branch_name = ns_branch_name ns,
                           arg_repo_dir = ns_repo_dir ns\<rparr>))"
| "consume ns extras (t # ts) =
     (case classify t of
        Value \<Rightarrow> consume ns True ts
      | Unknown \<Rightarrow> consume ns True ts
      | Unmodelled \<Rightarrow> None
      | Opt dst explicit_arg \<Rightarrow>
          if dst = Help then (if explicit_arg = None then Some (Inl (SystemExit 0)) else None)
          else (case explicit_arg of
                  Some v \<Rightarrow> consume (store dst v ns) extras ts
                | None \<Rightarrow>
                    (case ts of
                       [] \<Rightarrow> Some (Inl (SystemExit 2))
                     | v # ts' \<Rightarrow>
                         (case classify v of
                            Value \<Rightarrow> consume (store dst v ns) extras ts'
                          | Unmodelled \<Rightarrow> None
                          | _ \<Rightarrow> Some (Inl (SystemExit 2))))))"

definition parse_args :: "pystr list \<Rightarrow> (error + arguments) option" where
  "parse_args argv =
     (if list_ex (\<lambda>t. classify t = Unmodelled) argv then None
      else consume defaults False argv)"

text \<open>
  \<open>main\<close>: the lines of the run are the lines it prints in its loop; what the parser
  itself prints is left out.
\<close>

definition main :: "env \<Rightarrow> pystr list \<Rightarrow> history \<Rightarrow> run option" where
  "main e argv h =
     (case parse_args argv of
        None \<Rightarrow> None
      | Some (Inl err) \<Rightarrow> Some ([], h, Some err)
      | Some (Inr args) \<Rightarrow>
          (case init (arg_git_url args) (arg_branch_name args) (arg_repo_dir args) of
             Inl err \<Rightarrow> Some ([], h, Some err)
           | Inr self \<Rightarrow> Some (pull_from_remote e self h)))"

section \<open>The specification's reading of the command line\<close>

text \<open>
  A string of the command line selects an option when \<open>argparse\<close> reads it as that option,
  written in full or abbreviated, with or without \<open>=value\<close>.
\<close>

definition selects :: "dest \<Rightarrow> pystr \<Rightarrow> bool" where
  "selects dst t = (case classify t of Opt d explicit_arg \<Rightarrow> d = dst | _ \<Rightarrow> False)"

text \<open>
  A command line written as options in full, each followed by its value, and the value it
  gives an option: the last one.
\<close>

definition option_name :: "dest \<Rightarrow> pystr" where
  "option_name dst =
     (case dst of
        Help \<Rightarrow> ustr ''--help''
      | GitUrl \<Rightarrow> ustr ''--git-url''
      | BranchName \<Rightarrow> ustr ''--branch-name''
      | RepoDir \<Rightarrow> ustr ''--repo-dir'')"

definition render :: "(dest \<times> pystr) list \<Rightarrow> pystr list" where
  "render ps = concat (map (\<lambda>(dst, v). [option_name dst, v]) ps)"

definition given :: "dest \<Rightarrow> (dest \<times> pystr) list \<Rightarrow> pystr option" where
  "given dst ps = map_of (rev ps) dst"

text \<open>
  The specification speaks of the primary branch of the repository, the branch a clone of
  it checks out. It belongs to the remote repository, which the command line only names.
\<close>

record remote =
  remote_url :: pystr
  primary_branch :: pystr

section \<open>The specification's reading of the status output\<close>

text \<open>The lines of a text: the pieces between its newlines.\<close>

fun split_lines :: "pystr \<Rightarrow> pystr list" where
  "split_lines [] = [[]]"
| "split_lines (c # cs) =
     (if c = NL then [] # split_lines cs
      else (case split_lines cs of [] \<Rightarrow> [[c]] | l # ls \<Rightarrow> (c # l) # ls))"

text \<open>
  A line that is a modification marker in the specification's words: optional leading
  whitespace, the change-type letter, whitespace, then the path (what is left).
\<close>

definition marker_line :: "pystr \<Rightarrow> bool" where
  "marker_line l =
     (case dropWhile isspace l of
        c # d # path \<Rightarrow> c = letter_M \<and> isspace d
      | _ \<Rightarrow> False)"

text \<open>
  The format of \<open>git status --porcelain\<close>: every line is two status characters, not both
  blank, a space and a path, and ends with a newline, so that the piece after the last
  newline is empty.
\<close>

definition status_code :: "nat \<Rightarrow> bool" where
  "status_code c = (c \<in> set (ustr '' MTADRCU?!''))"

definition porcelain_line :: "pystr \<Rightarrow> bool" where
  "porcelain_line l =
     (case l of
        x # y # s # p # path \<Rightarrow> status_code x \<and> status_code y \<and> (x \<noteq> 32 \<or> y \<noteq> 32) \<and> s = 32
      | _ \<Rightarrow> False)"

definition porcelain :: "pystr \<Rightarrow> bool" where
  "porcelain out = list_all (\<lambda>l. l = [] \<or> porcelain_line l) (split_lines out)"

text \<open>
  A line that is the letter alone after optional whitespace: it carries no path, and no
  porcelain line has this shape.
\<close>

definition bare_line :: "pystr \<Rightarrow> bool" where
  "bare_line l = (dropWhile isspace l = [letter_M])"

text \<open>
  The lines a search still looks at: all of them when it stands at the start of a line,
  all but the first when it stands inside one.
\<close>

definition considered :: "bool \<Rightarrow> pystr \<Rightarrow> pystr list" where
  "considered bol s = (if bol then split_lines s else tl (split_lines s))"

section \<open>Observations\<close>

text \<open>
  What a process started after history \<open>h\<close> prints and the status it exits with, and the
  exception \<open>execute_cmd\<close> raises for it: none when the status is zero.
\<close>

definition printed :: "env \<Rightarrow> history \<Rightarrow> call \<Rightarrow> bytes" where
  "printed e h c = fst (proc e h c)"

definition returncode :: "env \<Rightarrow> history \<Rightarrow> call \<Rightarrow> int" where
  "returncode e h c = snd (proc e h c)"

definition failure :: "env \<Rightarrow> history \<Rightarrow> pystr list \<Rightarrow> pystr option \<Rightarrow> error option" where
  "failure e h cmd cwd =
     (if returncode e h (Popen cmd cwd) \<noteq> 0
      then Some (CalledProcessError (returncode e h (Popen cmd cwd)) cmd)
      else None)"

text \<open>The four processes of \<open>_make_commit\<close>, in order.\<close>

definition commit_calls :: "GitAutoSync \<Rightarrow> call list" where
  "commit_calls self =
     map (\<lambda>cmd. Popen cmd (in_repo self)) [add_cmd, config_email_cmd, config_name_cmd, commit_cmd]"

section \<open>Sample inputs\<close>

text \<open>
  An environment for running the model on concrete input: the processes answer by
  \<open>p\<close>, every path exists or none does, and the output is ASCII, which both codecs
  decode character by character.
\<close>

definition ascii_env :: "(history \<Rightarrow> call \<Rightarrow> bytes \<times> int) \<Rightarrow> bool \<Rightarrow> env" where
  "ascii_env p ex =
     \<lparr>proc = p, path_exists = (\<lambda>h d. ex), decode_replace = map of_char,
      decode_strict = (\<lambda>b. Some (map of_char b))\<rparr>"

text \<open>A remote repository whose primary branch is \<open>main\<close>.\<close>

definition sample_remote :: remote where
  "sample_remote = \<lparr>remote_url = ustr ''https://example.org/r.git'', primary_branch = ustr ''main''\<rparr>"

definition sample_repo :: GitAutoSync where
  "sample_repo = \<lparr>git_url = ustr ''https://example.org/r.git'', branch_name = ustr ''master'', repo_dir = ustr ''work''\<rparr>"

definition status_modified :: bytes where
  "status_modified = ''M  a.txt'' @ [bNL] @ ''?? b.txt'' @ [bNL]"

text \<open>A file staged and modified again since: \<open>git status --porcelain\<close> prints \<open>MM\<close> for it.\<close>

definition status_both_modified :: bytes where
  "status_both_modified = ''MM a.txt'' @ [bNL]"

definition status_untracked :: bytes where
  "status_untracked = ''?? b.txt'' @ [bNL] @ ''?? c.txt'' @ [bNL]"

text \<open>Process output for \<open>execute_cmd\<close>: a progress line, a full line and a last line without newline.\<close>

definition sample_body :: bytes where
  "sample_body = ''Receiving objects: 50%'' @ [bCR] @ ''Receiving objects: 100%, done.'' @ [bNL]"

definition sample_tail :: bytes where
  "sample_tail = ''Already up to date.''"

definition progress_output :: bytes where
  "progress_output = ''50%'' @ [bCR] @ ''100%'' @ [bCR]"

text \<open>
  \<open>scripted status rc\<close>: in an existing directory, every \<open>check_output\<close> prints
  \<open>status\<close> and succeeds, and a process run by \<open>execute_cmd\<close> prints nothing and
  exits with the status \<open>rc\<close> gives its command line.
\<close>

definition scripted :: "bytes \<Rightarrow> (pystr list \<Rightarrow> int) \<Rightarrow> env" where
  "scripted status rc =
     ascii_env (\<lambda>h c. case c of CheckOutput cmd cwd \<Rightarrow> (status, 0) | Popen cmd cwd \<Rightarrow> ([], rc cmd)) True"

text \<open>A directory that does not exist yet, where every process succeeds.\<close>

definition fresh_env :: env where
  "fresh_env = ascii_env (\<lambda>h c. ([], 0)) False"

text \<open>A directory that does not exist yet, where every process fails with status 128.\<close>

definition broken_env :: env where
  "broken_env = ascii_env (\<lambda>h c. ([], 128)) False"

text \<open>An existing directory where \<open>check_output\<close> fails for the command line \<open>failing\<close>.\<close>

definition status_failing :: "pystr list \<Rightarrow> env" where
  "status_failing failing =
     ascii_env (\<lambda>h c. case c of CheckOutput cmd cwd \<Rightarrow> ([], if cmd = failing then 128 else 0)
                                | Popen cmd cwd \<Rightarrow> ([], 0)) True"

text \<open>An existing directory where the merge exits with 1 the first time and \<open>second\<close> after that.\<close>

definition conflict_env :: "int \<Rightarrow> env" where
  "conflict_env second =
     ascii_env (\<lambda>h c. if c = Popen (merge_cmd sample_repo) (in_repo sample_repo)
                        then ([], if c \<in> set h then second else 1)
                        else ([], 0)) True"

definition status_deleted :: bytes where
  "status_deleted = ''deleted:    a.txt'' @ [bNL]"

text \<open>Two paths reported as deleted by \<open>git status\<close>.\<close>

definition status_two_deleted :: bytes where
  "status_two_deleted = ''deleted:    a.txt'' @ [bNL] @ ''deleted:    b.txt'' @ [bNL]"

definition file_a :: pystr where "file_a = ustr ''a.txt''"
definition file_b :: pystr where "file_b = ustr ''b.txt''"
definition file_c :: pystr where "file_c = ustr ''c.txt''"
definition file_d :: pystr where "file_d = ustr ''d.txt''"

text \<open>Exit statuses by command line.\<close>

definition ok_script :: "pystr list \<Rightarrow> int" where
  "ok_script cmd = 0"

definition cat_file_script :: "pystr list \<Rightarrow> int" where
  "cat_file_script cmd =
     (if cmd = cat_file_cmd sample_repo file_a then 128
      else if cmd = cat_file_cmd sample_repo file_c then 2
      else 0)"

definition fetch_script :: "int \<Rightarrow> pystr list \<Rightarrow> int" where
  "fetch_script code cmd = (if cmd = fetch_cmd then code else 0)"

definition restore_script :: "pystr list \<Rightarrow> int" where
  "restore_script cmd = (if cmd = restore_cmd file_a then 128 else 0)"

definition merge_script :: "int \<Rightarrow> int \<Rightarrow> pystr list \<Rightarrow> int" where
  "merge_script merge commit cmd =
     (if cmd = merge_cmd sample_repo then merge else if cmd = commit_cmd then commit else 0)"

section \<open>Dirtiness of the working tree\<close>

lemma isspace_M [simp]: "\<not> isspace letter_M"
  by (simp add: isspace_def letter_M_def)

lemma isspace_NL [simp]: "isspace NL"
  by (simp add: isspace_def NL_def)

lemma M_not_NL [simp]: "letter_M \<noteq> NL"
  by (simp add: NL_def letter_M_def)

lemma split_lines_nonempty [simp]: "split_lines s \<noteq> []"
  by (induction s) (auto split: list.splits)

lemma split_lines_Cons:
  "split_lines (c # cs) =
     (if c = NL then [] # split_lines cs else (c # hd (split_lines cs)) # tl (split_lines cs))"
  by (cases "split_lines cs") auto

declare split_lines.simps(2) [simp del]

lemma hd_tl_split: "set (split_lines s) = insert (hd (split_lines s)) (set (tl (split_lines s)))"
  by (cases "split_lines s") auto

lemma match_here_marker:
  "modified_match_here s \<Longrightarrow> \<forall>l\<in>set (split_lines s). \<not> bare_line l \<Longrightarrow>
   \<exists>l\<in>set (split_lines s). marker_line l"
proof (induction s)
  case Nil
  then show ?case by simp
next
  case (Cons c cs)
  show ?case
  proof (cases "c = letter_M")
    case True
    with Cons.prems(1) obtain d ds where cs: "cs = d # ds" and d: "isspace d"
      by (auto split: list.splits)
    show ?thesis
    proof (cases "d = NL")
      case True
      with cs \<open>c = letter_M\<close> have "split_lines (c # cs) = [letter_M] # split_lines ds"
        by (simp add: split_lines_Cons)
      with Cons.prems(2) show ?thesis by (simp add: bare_line_def)
    next
      case False
      with cs \<open>c = letter_M\<close> d have "marker_line (hd (split_lines (c # cs)))"
        by (simp add: split_lines_Cons marker_line_def)
      then show ?thesis
        using hd_tl_split[of "c # cs"] by blast
    qed
  next
    case False
    with Cons.prems(1) have sp: "isspace c" and m: "modified_match_here cs"
      by (auto split: if_splits)
    show ?thesis
    proof (cases "c = NL")
      case True
      with Cons.IH m Cons.prems(2) show ?thesis by (simp add: split_lines_Cons)
    next
      case False
      have sc: "split_lines (c # cs) = (c # hd (split_lines cs)) # tl (split_lines cs)"
        using False by (simp add: split_lines_Cons)
      have "\<not> bare_line (hd (split_lines cs))"
        using Cons.prems(2) sc sp by (simp add: bare_line_def)
      moreover have "\<forall>l\<in>set (tl (split_lines cs)). \<not> bare_line l"
        using Cons.prems(2) sc by simp
      ultimately have "\<forall>l\<in>set (split_lines cs). \<not> bare_line l"
        using hd_tl_split[of cs] by simp
      with Cons.IH m obtain l' where l': "l' \<in> set (split_lines cs)" "marker_line l'" by blast
      show ?thesis
      proof (cases "l' = hd (split_lines cs)")
        case True
        with l' sp have "marker_line (c # hd (split_lines cs))" by (simp add: marker_line_def)
        with sc show ?thesis by simp
      next
        case False
        with l' hd_tl_split[of cs] have "l' \<in> set (tl (split_lines cs))" by simp
        with l' sc show ?thesis by auto
      qed
    qed
  qed
qed

lemma considered_step:
  "set (considered (c = NL) cs) \<subseteq> set (considered bol (c # cs))"
proof (cases "c = NL")
  case True
  then show ?thesis by (auto simp: considered_def split_lines_Cons)
next
  case False
  then show ?thesis by (auto simp: considered_def split_lines_Cons)
qed

lemma search_marker:
  "modified_search bol s \<Longrightarrow> \<forall>l\<in>set (considered bol s). \<not> bare_line l \<Longrightarrow>
   \<exists>l\<in>set (considered bol s). marker_line l"
proof (induction s arbitrary: bol)
  case Nil
  then show ?case by simp
next
  case (Cons c cs)
  from Cons.prems(1) consider "bol" "modified_match_here (c # cs)" | "modified_search (c = NL) cs"
    by auto
  then show ?case
  proof cases
    case 1
    with match_here_marker[OF 1(2)] Cons.prems(2) show ?thesis by (simp add: considered_def)
  next
    case 2
    from Cons.prems(2) considered_step[of c cs bol]
    have "\<forall>l\<in>set (considered (c = NL) cs). \<not> bare_line l" by blast
    from Cons.IH[OF 2 this] considered_step[of c cs bol] show ?thesis by blast
  qed
qed

lemma hd_split_lines_Cons: "hd (split_lines (c # cs)) = (if c = NL then [] else c # hd (split_lines cs))"
  by (simp add: split_lines_Cons)

lemma hd_split_lines_hd: "hd (split_lines cs) = d # r \<Longrightarrow> \<exists>t. cs = d # t"
  by (cases cs) (auto simp: split_lines_Cons split: if_splits)

lemma marker_match_here:
  "marker_line (hd (split_lines s)) \<Longrightarrow> modified_match_here s"
proof (induction s)
  case Nil
  then show ?case by (simp add: marker_line_def)
next
  case (Cons c cs)
  show ?case
  proof (cases "c = NL")
    case True
    with Cons.prems show ?thesis by (simp add: marker_line_def hd_split_lines_Cons)
  next
    case False
    with Cons.prems have m: "marker_line (c # hd (split_lines cs))"
      by (simp add: hd_split_lines_Cons)
    show ?thesis
    proof (cases "isspace c")
      case True
      with m have "marker_line (hd (split_lines cs))" by (simp add: marker_line_def)
      with Cons.IH have "modified_match_here cs" by simp
      with True show ?thesis by auto
    next
      case False
      with m obtain d r where c: "c = letter_M" and h: "hd (split_lines cs) = d # r" and d: "isspace d"
        by (auto simp: marker_line_def split: list.splits)
      from hd_split_lines_hd[OF h] obtain t where "cs = d # t" by blast
      with c d show ?thesis by simp
    qed
  qed
qed

lemma marker_search:
  "l \<in> set (considered bol s) \<Longrightarrow> marker_line l \<Longrightarrow> modified_search bol s"
proof (induction s arbitrary: bol)
  case Nil
  then show ?case by (auto simp: considered_def marker_line_def split: if_splits)
next
  case (Cons c cs)
  show ?case
  proof (cases "bol \<and> l = hd (split_lines (c # cs))")
    case True
    with Cons.prems(2) have "modified_match_here (c # cs)"
      using marker_match_here[of "c # cs"] by blast
    with True show ?thesis by (simp del: modified_match_here.simps)
  next
    case False
    with Cons.prems(1) hd_tl_split[of "c # cs"] have "l \<in> set (tl (split_lines (c # cs)))"
      by (auto simp: considered_def split: if_splits)
    then have "l \<in> set (considered (c = NL) cs)"
      by (simp add: considered_def split_lines_Cons split: if_splits)
    from Cons.IH[OF this Cons.prems(2)] show ?thesis by simp
  qed
qed

lemma search_iff_marker:
  assumes "\<forall>l\<in>set (split_lines s). \<not> bare_line l"
  shows "modified_search True s = (\<exists>l\<in>set (split_lines s). marker_line l)"
proof
  assume "modified_search True s"
  from search_marker[OF this] assms show "\<exists>l\<in>set (split_lines s). marker_line l"
    by (simp add: considered_def)
next
  assume "\<exists>l\<in>set (split_lines s). marker_line l"
  then obtain l where "l \<in> set (considered True s)" "marker_line l"
    by (auto simp: considered_def)
  then show "modified_search True s" by (rule marker_search)
qed

text \<open>
  The format matters: in the text \<open>M\n\<close> the newline is the whitespace the pattern asks
  for after the letter, so the search succeeds though the only line is the letter alone.
\<close>

lemma bare_line_matches:
  "modified_search True [letter_M, NL] \<and> \<not> (\<exists>l\<in>set (split_lines [letter_M, NL]). marker_line l)"
  by (simp add: split_lines_Cons marker_line_def)

lemma status_code_space: "status_code c \<Longrightarrow> isspace c \<Longrightarrow> c = 32"
  by (auto simp: status_code_def isspace_def)

lemma porcelain_line_not_bare:
  assumes "porcelain_line l"
  shows "\<not> bare_line l"
proof -
  from assms obtain x y s p path where l: "l = x # y # s # p # path"
    and x: "status_code x" and y: "status_code y" and xy: "x \<noteq> 32 \<or> y \<noteq> 32"
    by (auto simp: porcelain_line_def split: list.splits)
  show ?thesis
  proof (cases "isspace x")
    case False
    with l show ?thesis by (simp add: bare_line_def)
  next
    case True
    with x xy y status_code_space have "\<not> isspace y" by blast
    with True l show ?thesis by (simp add: bare_line_def)
  qed
qed

lemma porcelain_no_bare: "porcelain out \<Longrightarrow> \<forall>l\<in>set (split_lines out). \<not> bare_line l"
  unfolding porcelain_def list_all_iff
  using porcelain_line_not_bare by (auto simp: bare_line_def)

lemma untracked_line_plain:
  assumes "l = [] \<or> take 3 l = ustr ''?? ''"
  shows "\<not> bare_line l \<and> \<not> marker_line l"
proof (cases l)
  case Nil
  then show ?thesis by (simp add: bare_line_def marker_line_def)
next
  case (Cons c cs)
  with assms have "c = 63" by simp
  with Cons show ?thesis
    by (simp add: bare_line_def marker_line_def isspace_def letter_M_def split: list.splits)
qed

lemma modified_line_marker:
  assumes "take 3 l = ustr ''M  '' \<or> take 3 l = ustr '' M ''"
  shows "marker_line l"
proof -
  have "l = take 3 l @ drop 3 l" by simp
  with assms consider "l = [77, 32, 32] @ drop 3 l" | "l = [32, 77, 32] @ drop 3 l"
    by fastforce
  then show ?thesis
  proof cases
    case 1
    have "marker_line ([77, 32, 32] @ drop 3 l)"
      by (simp add: marker_line_def isspace_def letter_M_def)
    with 1 show ?thesis by simp
  next
    case 2
    have "marker_line ([32, 77, 32] @ drop 3 l)"
      by (simp add: marker_line_def isspace_def letter_M_def)
    with 2 show ?thesis by simp
  qed
qed

lemma porcelain_marker_iff:
  assumes "l = [] \<or> porcelain_line l"
  shows "marker_line l = (take 3 l = ustr ''M  '' \<or> take 3 l = ustr '' M '')"
proof
  assume "take 3 l = ustr ''M  '' \<or> take 3 l = ustr '' M ''"
  then show "marker_line l" by (rule modified_line_marker)
next
  assume m: "marker_line l"
  then have "l \<noteq> []" by (auto simp: marker_line_def)
  with assms obtain x y s p path where l: "l = x # y # s # p # path"
    and x: "status_code x" and y: "status_code y" and xy: "x \<noteq> 32 \<or> y \<noteq> 32" and s: "s = 32"
    by (auto simp: porcelain_line_def split: list.splits)
  show "take 3 l = ustr ''M  '' \<or> take 3 l = ustr '' M ''"
  proof (cases "isspace x")
    case True
    with x have x32: "x = 32" by (rule status_code_space)
    with xy y status_code_space have "\<not> isspace y" by blast
    with True m l have "y = letter_M" by (simp add: marker_line_def)
    with x32 s l show ?thesis by (simp add: letter_M_def)
  next
    case False
    with m l have "x = letter_M" and "isspace y" by (simp_all add: marker_line_def)
    with y status_code_space have "x = letter_M" "y = 32" by blast+
    with s l show ?thesis by (simp add: letter_M_def)
  qed
qed

lemma porcelain_dirty_lines:
  assumes "porcelain out"
  shows "(\<exists>l\<in>set (split_lines out). marker_line l) =
         list_ex (\<lambda>l. take 3 l = ustr ''M  '' \<or> take 3 l = ustr '' M '') (split_lines out)"
proof -
  from assms have "\<forall>l\<in>set (split_lines out). l = [] \<or> porcelain_line l"
    by (simp add: porcelain_def list_all_iff)
  then have "\<forall>l\<in>set (split_lines out).
      marker_line l = (take 3 l = ustr ''M  '' \<or> take 3 l = ustr '' M '')"
    using porcelain_marker_iff by blast
  then show ?thesis unfolding list_ex_iff by blast
qed

lemma repo_is_dirty_ok:
  assumes "proc e h (CheckOutput porcelain_cmd (in_repo self)) = (b, 0)"
      and "decode_strict e b = Some out"
  shows "repo_is_dirty e self h = (Inr (modified_search True out), h @ [CheckOutput porcelain_cmd (in_repo self)])"
  using assms by (simp add: repo_is_dirty_def check_output_def)

text \<open>
  Claim C4, amended. When \<open>git status --porcelain\<close> succeeds and its output decodes to a
  text in porcelain format, \<open>repo_is_dirty\<close> returns true exactly when some line of the
  text is optional leading whitespace, the letter \<open>M\<close>, whitespace, then a path; these are
  the lines whose status is \<open>M\<close> and a blank (staged, \<open>M  path\<close>) or a blank and \<open>M\<close>
  (not staged, \<open> M path\<close>), so a line with two status letters such as \<open>MM path\<close> does not
  count. A text whose lines are all untracked-file lines (\<open>?? path\<close>) is not dirty; a
  text with an \<open>M  path\<close> or an \<open> M path\<close> line is dirty, whatever its other lines.
\<close>

theorem repo_is_dirty_iff_marker_line:
  assumes "proc e h (CheckOutput porcelain_cmd (in_repo self)) = (b, 0)"
      and "decode_strict e b = Some out"
  shows "(porcelain out \<longrightarrow>
            fst (repo_is_dirty e self h) = Inr (\<exists>l\<in>set (split_lines out). marker_line l))
       \<and> (list_all (\<lambda>l. l = [] \<or> take 3 l = ustr ''?? '') (split_lines out) \<longrightarrow>
            fst (repo_is_dirty e self h) = Inr False)
       \<and> (list_ex (\<lambda>l. take 3 l = ustr ''M  '' \<or> take 3 l = ustr '' M '') (split_lines out) \<longrightarrow>
            fst (repo_is_dirty e self h) = Inr True)
       \<and> (porcelain out \<longrightarrow>
            fst (repo_is_dirty e self h) =
              Inr (list_ex (\<lambda>l. take 3 l = ustr ''M  '' \<or> take 3 l = ustr '' M '') (split_lines out)))"
proof (intro conjI impI)
  assume p: "porcelain out"
  then have "modified_search True out = (\<exists>l\<in>set (split_lines out). marker_line l)"
    by (intro search_iff_marker porcelain_no_bare)
  with repo_is_dirty_ok[OF assms] porcelain_dirty_lines[OF p]
  show "fst (repo_is_dirty e self h) =
      Inr (list_ex (\<lambda>l. take 3 l = ustr ''M  '' \<or> take 3 l = ustr '' M '') (split_lines out))"
    by simp
next
  assume "porcelain out"
  then have "modified_search True out = (\<exists>l\<in>set (split_lines out). marker_line l)"
    by (intro search_iff_marker porcelain_no_bare)
  with repo_is_dirty_ok[OF assms]
  show "fst (repo_is_dirty e self h) = Inr (\<exists>l\<in>set (split_lines out). marker_line l)" by simp
next
  assume "list_all (\<lambda>l. l = [] \<or> take 3 l = ustr ''?? '') (split_lines out)"
  then have u: "\<forall>l\<in>set (split_lines out). \<not> bare_line l \<and> \<not> marker_line l"
    using untracked_line_plain by (simp add: list_all_iff)
  then have "modified_search True out = (\<exists>l\<in>set (split_lines out). marker_line l)"
    by (intro search_iff_marker) blast
  with u have "\<not> modified_search True out" by blast
  with repo_is_dirty_ok[OF assms] show "fst (repo_is_dirty e self h) = Inr False" by simp
next
  assume "list_ex (\<lambda>l. take 3 l = ustr ''M  '' \<or> take 3 l = ustr '' M '') (split_lines out)"
  then obtain l where "l \<in> set (considered True out)" "marker_line l"
    using modified_line_marker by (auto simp: list_ex_iff considered_def)
  then have "modified_search True out" by (rule marker_search)
  with repo_is_dirty_ok[OF assms] show "fst (repo_is_dirty e self h) = Inr True" by simp
qed

text \<open>
  Claim C4 as stated fails: the porcelain text \<open>MM a.txt\<close>, the line of a file with a
  staged modification and a further one in the working tree, is not classified dirty.
\<close>

theorem modified_twice_is_not_dirty:
  "porcelain (ustr status_both_modified)
   \<and> split_lines (ustr status_both_modified) = [ustr ''MM a.txt'', []]
   \<and> fst (repo_is_dirty (scripted status_both_modified ok_script) sample_repo []) = Inr False"
proof -
  have sl: "split_lines (ustr status_both_modified) = [ustr ''MM a.txt'', []]"
    by (simp add: status_both_modified_def split_lines.simps(2) NL_def bNL_def)
  have p: "porcelain (ustr status_both_modified)"
    by (simp add: porcelain_def sl porcelain_line_def status_code_def)
  have d: "\<not> modified_search True (ustr status_both_modified)"
    by (simp add: status_both_modified_def isspace_def letter_M_def NL_def bNL_def)
  have "repo_is_dirty (scripted status_both_modified ok_script) sample_repo [] =
      (Inr (modified_search True (ustr status_both_modified)), [] @ [CheckOutput porcelain_cmd (in_repo sample_repo)])"
    by (rule repo_is_dirty_ok) (simp_all add: scripted_def ascii_env_def)
  with sl p d show ?thesis by simp
qed

lemma split_lines_status_modified: "split_lines (ustr status_modified) = [ustr ''M  a.txt'', ustr ''?? b.txt'', []]"
  by (simp add: status_modified_def split_lines.simps(2) NL_def bNL_def)

lemma split_lines_status_untracked: "split_lines (ustr status_untracked) = [ustr ''?? b.txt'', ustr ''?? c.txt'', []]"
  by (simp add: status_untracked_def split_lines.simps(2) NL_def bNL_def)

theorem repo_is_dirty_iff_marker_line_witness:
  "porcelain (ustr status_modified)
   \<and> fst (repo_is_dirty (ascii_env (\<lambda>h c. (status_modified, 0)) True) sample_repo []) = Inr True
   \<and> (\<exists>l\<in>set (split_lines (ustr status_modified)). marker_line l)
   \<and> list_ex (\<lambda>l. take 3 l = ustr ''M  '' \<or> take 3 l = ustr '' M '') (split_lines (ustr status_modified))
   \<and> list_all (\<lambda>l. l = [] \<or> take 3 l = ustr ''?? '') (split_lines (ustr status_untracked))
   \<and> fst (repo_is_dirty (ascii_env (\<lambda>h c. (status_untracked, 0)) True) sample_repo []) = Inr False"
proof -
  have p: "porcelain (ustr status_modified)"
    by (simp add: porcelain_def split_lines_status_modified porcelain_line_def status_code_def)
  have m: "\<exists>l\<in>set (split_lines (ustr status_modified)). marker_line l"
    by (simp add: split_lines_status_modified marker_line_def isspace_def letter_M_def)
  have x: "list_ex (\<lambda>l. take 3 l = ustr ''M  '' \<or> take 3 l = ustr '' M '') (split_lines (ustr status_modified))"
    by (simp add: split_lines_status_modified)
  have u: "list_all (\<lambda>l. l = [] \<or> take 3 l = ustr ''?? '') (split_lines (ustr status_untracked))"
    by (simp add: split_lines_status_untracked)
  have a: "proc (ascii_env (\<lambda>h c. (status_modified, 0)) True) [] (CheckOutput porcelain_cmd (in_repo sample_repo)) = (status_modified, 0)"
    by (simp add: ascii_env_def)
  have b: "decode_strict (ascii_env (\<lambda>h c. (status_modified, 0)) True) status_modified = Some (ustr status_modified)"
    by (simp add: ascii_env_def)
  have a': "proc (ascii_env (\<lambda>h c. (status_untracked, 0)) True) [] (CheckOutput porcelain_cmd (in_repo sample_repo)) = (status_untracked, 0)"
    by (simp add: ascii_env_def)
  have b': "decode_strict (ascii_env (\<lambda>h c. (status_untracked, 0)) True) status_untracked = Some (ustr status_untracked)"
    by (simp add: ascii_env_def)
  from repo_is_dirty_iff_marker_line[OF a b] repo_is_dirty_iff_marker_line[OF a' b'] p m x u
  show ?thesis by blast
qed

section \<open>Generators\<close>

lemma run_eta: "r = (lines_of r, hist_of r, err_of r)"
  by (simp add: lines_of_def hist_of_def err_of_def)

lemma run_sel [simp]:
  "lines_of (ls, h, r) = ls" "hist_of (ls, h, r) = h" "err_of (ls, h, r) = r"
  by (simp_all add: lines_of_def hist_of_def err_of_def)

lemma then_gen_ok:
  "err_of (f h) = None \<Longrightarrow>
   then_gen f g h = (lines_of (f h) @ lines_of (g (hist_of (f h))), hist_of (g (hist_of (f h))),
                     err_of (g (hist_of (f h))))"
  by (cases "f h"; cases "g (hist_of (f h))") (simp add: then_gen_def)

lemma then_gen_fail:
  "err_of (f h) = Some x \<Longrightarrow> then_gen f g h = f h"
  by (cases "f h") (simp add: then_gen_def)

lemma try_except_ok:
  "err_of (f h) = None \<Longrightarrow> try_except f handler h = f h"
  by (cases "f h") (simp add: try_except_def)

lemma try_except_fail:
  "err_of (f h) = Some x \<Longrightarrow>
   try_except f handler h =
     (lines_of (f h) @ lines_of (handler x (hist_of (f h))), hist_of (handler x (hist_of (f h))),
      err_of (handler x (hist_of (f h))))"
  by (cases "f h"; cases "handler x (hist_of (f h))") (simp add: try_except_def)

section \<open>Lines and errors of execute_cmd\<close>

lemma execute_cmd_hist [simp]: "hist_of (execute_cmd e cmd cwd h) = h @ [Popen cmd cwd]"
  by (simp add: execute_cmd_def split: prod.splits)

lemma execute_cmd_err [simp]: "err_of (execute_cmd e cmd cwd h) = failure e h cmd cwd"
  by (simp add: execute_cmd_def failure_def returncode_def split: prod.splits)

lemma execute_cmd_lines:
  "lines_of (execute_cmd e cmd cwd h) =
     echo_line cmd # map (decode_replace e) (fst (read_loop [] None (printed e h (Popen cmd cwd))))"
  by (simp add: execute_cmd_def printed_def split: prod.splits)

lemma failure_None [simp]: "(failure e h cmd cwd = None) = (returncode e h (Popen cmd cwd) = 0)"
  by (simp add: failure_def)

lemma failure_Some:
  "(failure e h cmd cwd = Some x) =
     (returncode e h (Popen cmd cwd) \<noteq> 0 \<and> x = CalledProcessError (returncode e h (Popen cmd cwd)) cmd)"
  by (auto simp: failure_def)

lemma read_loop_append:
  "read_loop buf cl (xs @ ys) =
     (fst (read_loop buf cl xs) @
        fst (read_loop (snd (read_loop buf cl xs)) (if xs = [] then cl else Some (last xs)) ys),
      snd (read_loop (snd (read_loop buf cl xs)) (if xs = [] then cl else Some (last xs)) ys))"
proof (induction xs arbitrary: buf cl)
  case Nil
  then show ?case by simp
next
  case (Cons c cs)
  show ?case
    by (simp add: Let_def Cons.IH split_beta)
qed

lemma read_loop_concat:
  "concat (fst (read_loop buf cl xs)) @ snd (read_loop buf cl xs) = buf @ xs"
proof (induction xs arbitrary: buf cl)
  case Nil
  then show ?case by simp
next
  case (Cons c cs)
  show ?case
    by (simp add: Let_def split_beta Cons.IH)
qed

lemma read_loop_plain:
  assumes "\<forall>c\<in>set tail. c \<noteq> bNL \<and> c \<noteq> bCR"
  shows "read_loop buf cl tail =
           (if tail \<noteq> [] \<and> cl = Some bCR \<and> buf \<noteq> [] then ([buf], tail) else ([], buf @ tail))"
  using assms
proof (induction tail arbitrary: buf cl)
  case Nil
  then show ?case by simp
next
  case (Cons c cs)
  then have c: "c \<noteq> bNL" "c \<noteq> bCR" and cs: "\<forall>c\<in>set cs. c \<noteq> bNL \<and> c \<noteq> bCR"
    by simp_all
  show ?case
    by (simp add: Let_def Cons.IH[OF cs] c)
qed

lemma read_loop_single:
  "read_loop buf cl [c] =
     ((if cl = Some bCR \<and> buf \<noteq> [] \<and> c \<noteq> bNL then [buf] else []) @
      (if c = bNL then [(if cl = Some bCR \<and> buf \<noteq> [] \<and> c \<noteq> bNL then [] else buf) @ [c]] else []),
      if c = bNL then [] else (if cl = Some bCR \<and> buf \<noteq> [] \<and> c \<noteq> bNL then [] else buf) @ [c])"
  by (simp add: Let_def)

lemma read_loop_after_NL: "snd (read_loop buf cl (xs @ [bNL])) = []"
  by (simp add: read_loop_append read_loop_single del: read_loop.simps)

lemma read_loop_after_CR: "snd (read_loop buf cl (xs @ [bCR])) \<noteq> []"
  by (simp add: read_loop_append read_loop_single bCR_def bNL_def del: read_loop.simps)

lemma read_loop_tail:
  assumes "tail \<noteq> []" and "\<forall>c\<in>set tail. c \<noteq> bNL \<and> c \<noteq> bCR"
    and "body = [] \<or> last body = bNL \<or> last body = bCR"
  shows "concat (fst (read_loop [] None (body @ tail))) = body"
proof -
  let ?b1 = "snd (read_loop [] None body)"
  let ?cl = "if body = [] then None else Some (last body)"
  have chunks: "fst (read_loop [] None (body @ tail)) =
      fst (read_loop [] None body) @ (if ?cl = Some bCR \<and> ?b1 \<noteq> [] then [?b1] else [])"
    using assms(1) by (simp add: read_loop_append read_loop_plain[OF assms(2)])
  have whole: "concat (fst (read_loop [] None body)) @ ?b1 = body"
    using read_loop_concat[of "[]" None body] by simp
  show ?thesis
  proof (cases "body = []")
    case True
    then show ?thesis using chunks by simp
  next
    case False
    then obtain xs where body: "body = xs @ [last body]"
      by (metis append_butlast_last_id)
    from False assms(3) consider "last body = bNL" | "last body = bCR" by blast
    then show ?thesis
    proof cases
      case 1
      with body have "?b1 = []" by (metis read_loop_after_NL)
      with whole chunks False 1 show ?thesis by (simp add: bNL_def bCR_def)
    next
      case 2
      with body have "?b1 \<noteq> []" by (metis read_loop_after_CR)
      with whole chunks False 2 show ?thesis by simp
    qed
  qed
qed

text \<open>
  Claim C9. When the output of the process ends in a partial line (\<open>tail\<close>: not empty,
  with neither newline nor carriage return, after a \<open>body\<close> that is empty or ends in
  one), the lines \<open>execute_cmd\<close> yields after the echo are pieces of \<open>body\<close> alone: the
  partial line is never yielded. This holds whatever the exit status; a nonzero one
  still raises (\<open>failure\<close>).
\<close>

theorem execute_cmd_drops_partial_line:
  assumes "printed e h (Popen cmd cwd) = body @ tail"
      and "tail \<noteq> []"
      and "\<forall>c\<in>set tail. c \<noteq> bNL \<and> c \<noteq> bCR"
      and "body = [] \<or> last body = bNL \<or> last body = bCR"
  shows "\<exists>chunks. concat chunks = body
           \<and> execute_cmd e cmd cwd h =
               (echo_line cmd # map (decode_replace e) chunks, h @ [Popen cmd cwd], failure e h cmd cwd)"
proof -
  let ?chunks = "fst (read_loop [] None (body @ tail))"
  have "concat ?chunks = body"
    using assms(2-4) by (rule read_loop_tail)
  moreover have "execute_cmd e cmd cwd h =
      (echo_line cmd # map (decode_replace e) ?chunks, h @ [Popen cmd cwd], failure e h cmd cwd)"
    using run_eta[of "execute_cmd e cmd cwd h"] assms(1) by (simp add: execute_cmd_lines)
  ultimately show ?thesis by blast
qed

theorem execute_cmd_drops_partial_line_witness:
  "(\<exists>chunks. concat chunks = sample_body
      \<and> execute_cmd (ascii_env (\<lambda>h c. (sample_body @ sample_tail, 1)) True) fetch_cmd None [] =
          (echo_line fetch_cmd # map (decode_replace (ascii_env (\<lambda>h c. (sample_body @ sample_tail, 1)) True)) chunks,
           [] @ [Popen fetch_cmd None],
           failure (ascii_env (\<lambda>h c. (sample_body @ sample_tail, 1)) True) [] fetch_cmd None))
   \<and> failure (ascii_env (\<lambda>h c. (sample_body @ sample_tail, 1)) True) [] fetch_cmd None
       = Some (CalledProcessError 1 fetch_cmd)"
proof -
  let ?e = "ascii_env (\<lambda>h c. (sample_body @ sample_tail, 1)) True"
  have a: "printed ?e [] (Popen fetch_cmd None) = sample_body @ sample_tail"
    by (simp add: printed_def ascii_env_def)
  have b: "sample_tail \<noteq> []" by (simp add: sample_tail_def)
  have c: "\<forall>c\<in>set sample_tail. c \<noteq> bNL \<and> c \<noteq> bCR"
    by (simp add: sample_tail_def bNL_def bCR_def)
  have d: "sample_body = [] \<or> last sample_body = bNL \<or> last sample_body = bCR"
    by (simp add: sample_body_def)
  have f: "failure ?e [] fetch_cmd None = Some (CalledProcessError 1 fetch_cmd)"
    by (simp add: failure_def returncode_def ascii_env_def)
  from execute_cmd_drops_partial_line[OF a b c d] f show ?thesis by blast
qed

text \<open>
  Claim C6. The output is not always given out whole, split into lines: a process that
  prints \<open>done\<close> without a newline and exits with status 0 yields the echo line only, and
  of two progress updates \<open>50%\r100%\r\<close> the first alone is yielded, the second never.
\<close>

theorem execute_cmd_loses_last_line:
  "lines_of (execute_cmd (ascii_env (\<lambda>h c. (''done'', 0)) True) fetch_cmd None []) = [echo_line fetch_cmd]
   \<and> err_of (execute_cmd (ascii_env (\<lambda>h c. (''done'', 0)) True) fetch_cmd None []) = None
   \<and> lines_of (execute_cmd (ascii_env (\<lambda>h c. (progress_output, 0)) True) fetch_cmd None [])
        = [echo_line fetch_cmd, ustr (''50%'' @ [bCR])]
   \<and> err_of (execute_cmd (ascii_env (\<lambda>h c. (progress_output, 0)) True) fetch_cmd None []) = None"
  by (simp add: execute_cmd_lines printed_def ascii_env_def progress_output_def returncode_def
        Let_def bCR_def bNL_def)

section \<open>Constructor and command line\<close>

lemma store_fields [simp]:
  "ns_git_url (store dst v ns) = (if dst = GitUrl then Some v else ns_git_url ns)"
  "ns_branch_name (store dst v ns) = (if dst = BranchName then v else ns_branch_name ns)"
  "ns_repo_dir (store dst v ns) = (if dst = RepoDir then v else ns_repo_dir ns)"
  by (simp_all add: store_def split: dest.splits)

lemma selects_Value [simp]: "classify v = Value \<Longrightarrow> \<not> selects dst v"
  by (simp add: selects_def)

lemma selects_Unknown [simp]: "classify v = Unknown \<Longrightarrow> \<not> selects dst v"
  by (simp add: selects_def)

lemma selects_Opt [simp]: "classify t = Opt d x \<Longrightarrow> selects dst t = (d = dst)"
  by (simp add: selects_def)

lemma consume_required:
  "consume ns ex argv = Some (Inr args) \<Longrightarrow> ns_git_url ns \<noteq> None \<or> list_ex (selects GitUrl) argv"
proof (induction ns ex argv rule: consume.induct)
  case (1 ns extras)
  then show ?case by (simp split: option.splits)
next
  case (2 ns extras t ts)
  show ?case
  proof (cases "classify t")
    case Value
    with 2 show ?thesis by simp
  next
    case Unknown
    with 2 show ?thesis by simp
  next
    case Unmodelled
    with 2 show ?thesis by simp
  next
    case (Opt dst x)
    with "2.prems" have nh: "dst \<noteq> Help" by (auto split: if_splits)
    show ?thesis
    proof (cases x)
      case (Some v)
      with Opt nh "2.prems" have "consume (store dst v ns) extras ts = Some (Inr args)" by simp
      from "2.IH"(3)[OF Opt nh Some this] Opt show ?thesis by (auto split: if_splits)
    next
      case None
      with Opt nh "2.prems" obtain v ts' where ts: "ts = v # ts'" and v: "classify v = Value"
        and c: "consume (store dst v ns) extras ts' = Some (Inr args)"
        by (auto split: list.splits arg_class.splits)
      from "2.IH"(2)[OF Opt nh None ts v c] Opt ts v show ?thesis by (auto split: if_splits)
    qed
  qed
qed


lemma consume_branch_default:
  "consume ns ex argv = Some (Inr args) \<Longrightarrow> \<not> list_ex (selects BranchName) argv \<Longrightarrow>
   arg_branch_name args = ns_branch_name ns"
proof (induction ns ex argv rule: consume.induct)
  case (1 ns extras)
  then show ?case by (auto split: option.splits if_splits)
next
  case (2 ns extras t ts)
  show ?case
  proof (cases "classify t")
    case Value
    with 2 show ?thesis by simp
  next
    case Unknown
    with 2 show ?thesis by simp
  next
    case Unmodelled
    with 2 show ?thesis by simp
  next
    case (Opt dst x)
    with "2.prems" have nh: "dst \<noteq> Help" and nb: "dst \<noteq> BranchName"
      and rest: "\<not> list_ex (selects BranchName) ts"
      by (auto split: if_splits)
    show ?thesis
    proof (cases x)
      case (Some v)
      with Opt nh "2.prems" have "consume (store dst v ns) extras ts = Some (Inr args)" by simp
      from "2.IH"(3)[OF Opt nh Some this rest] nb show ?thesis by simp
    next
      case None
      with Opt nh "2.prems" obtain v ts' where ts: "ts = v # ts'" and v: "classify v = Value"
        and c: "consume (store dst v ns) extras ts' = Some (Inr args)"
        by (auto split: list.splits arg_class.splits)
      from rest ts have "\<not> list_ex (selects BranchName) ts'" by simp
      from "2.IH"(2)[OF Opt nh None ts v c this] nb show ?thesis by simp
    qed
  qed
qed

lemma consume_dir_default:
  "consume ns ex argv = Some (Inr args) \<Longrightarrow> \<not> list_ex (selects RepoDir) argv \<Longrightarrow>
   arg_repo_dir args = ns_repo_dir ns"
proof (induction ns ex argv rule: consume.induct)
  case (1 ns extras)
  then show ?case by (auto split: option.splits if_splits)
next
  case (2 ns extras t ts)
  show ?case
  proof (cases "classify t")
    case Value
    with 2 show ?thesis by simp
  next
    case Unknown
    with 2 show ?thesis by simp
  next
    case Unmodelled
    with 2 show ?thesis by simp
  next
    case (Opt dst x)
    with "2.prems" have nh: "dst \<noteq> Help" and nb: "dst \<noteq> RepoDir"
      and rest: "\<not> list_ex (selects RepoDir) ts"
      by (auto split: if_splits)
    show ?thesis
    proof (cases x)
      case (Some v)
      with Opt nh "2.prems" have "consume (store dst v ns) extras ts = Some (Inr args)" by simp
      from "2.IH"(3)[OF Opt nh Some this rest] nb show ?thesis by simp
    next
      case None
      with Opt nh "2.prems" obtain v ts' where ts: "ts = v # ts'" and v: "classify v = Value"
        and c: "consume (store dst v ns) extras ts' = Some (Inr args)"
        by (auto split: list.splits arg_class.splits)
      from rest ts have "\<not> list_ex (selects RepoDir) ts'" by simp
      from "2.IH"(2)[OF Opt nh None ts v c this] nb show ?thesis by simp
    qed
  qed
qed

lemma consume_exit:
  "consume ns ex argv = Some (Inl err) \<Longrightarrow>
   err = SystemExit 2 \<or> (err = SystemExit 0 \<and> list_ex (selects Help) argv)"
proof (induction ns ex argv rule: consume.induct)
  case (1 ns extras)
  then show ?case by (auto split: option.splits if_splits)
next
  case (2 ns extras t ts)
  show ?case
  proof (cases "classify t")
    case Value
    with 2 show ?thesis by auto
  next
    case Unknown
    with 2 show ?thesis by auto
  next
    case Unmodelled
    with 2 show ?thesis by simp
  next
    case (Opt dst x)
    show ?thesis
    proof (cases "dst = Help")
      case True
      with Opt "2.prems" show ?thesis by (auto split: if_splits)
    next
      case nh: False
      show ?thesis
      proof (cases x)
        case (Some v)
        with Opt nh "2.prems" have "consume (store dst v ns) extras ts = Some (Inl err)" by simp
        from "2.IH"(3)[OF Opt nh Some this] show ?thesis by auto
      next
        case None
        show ?thesis
        proof (cases "\<exists>v ts'. ts = v # ts' \<and> classify v = Value")
          case True
          then obtain v ts' where ts: "ts = v # ts'" and v: "classify v = Value" by blast
          with Opt nh None "2.prems" have "consume (store dst v ns) extras ts' = Some (Inl err)"
            by simp
          from "2.IH"(2)[OF Opt nh None ts v this] ts show ?thesis by auto
        next
          case False
          with Opt nh None "2.prems" show ?thesis
            by (auto split: list.splits arg_class.splits)
        qed
      qed
    qed
  qed
qed

lemma classify_option_name:
  "classify (option_name GitUrl) = Opt GitUrl None"
  "classify (option_name BranchName) = Opt BranchName None"
  "classify (option_name RepoDir) = Opt RepoDir None"
  "classify (option_name Help) = Opt Help None"
  by (simp_all add: option_name_def candidates_def option_strings_def)

lemma classify_option_name_dst: "classify (option_name dst) = Opt dst None"
  by (cases dst) (simp_all only: classify_option_name)

lemma consume_render:
  assumes "list_all (\<lambda>(dst, v). dst \<noteq> Help \<and> classify v = Value) ps"
  shows "consume ns ex (render ps) = consume (foldl (\<lambda>ns (dst, v). store dst v ns) ns ps) ex []"
  using assms
proof (induction ps arbitrary: ns)
  case Nil
  then show ?case by (simp add: render_def)
next
  case (Cons p ps)
  obtain dst v where p: "p = (dst, v)" by (cases p)
  with Cons.prems have nh: "dst \<noteq> Help" and v: "classify v = Value"
    and rest: "list_all (\<lambda>(dst, v). dst \<noteq> Help \<and> classify v = Value) ps"
    by simp_all
  have "render (p # ps) = option_name dst # v # render ps"
    by (simp add: render_def p)
  then have "consume ns ex (render (p # ps)) = consume (store dst v ns) ex (render ps)"
    using nh v by (simp add: classify_option_name_dst)
  with Cons.IH[OF rest] p show ?case by simp
qed

lemma render_modelled:
  assumes "list_all (\<lambda>(dst, v). dst \<noteq> Help \<and> classify v = Value) ps"
  shows "\<not> list_ex (\<lambda>t. classify t = Unmodelled) (render ps)"
  using assms
  by (induction ps) (auto simp: render_def classify_option_name_dst)

lemma given_Cons:
  "given dst ((d, v) # ps) = (case given dst ps of None \<Rightarrow> (if d = dst then Some v else None) | Some x \<Rightarrow> Some x)"
  by (simp add: given_def map_add_def split: option.splits)

lemma stored_fields:
  "ns_git_url (foldl (\<lambda>ns (dst, v). store dst v ns) ns ps) =
     (case given GitUrl ps of None \<Rightarrow> ns_git_url ns | Some x \<Rightarrow> Some x)"
  "ns_branch_name (foldl (\<lambda>ns (dst, v). store dst v ns) ns ps) =
     (case given BranchName ps of None \<Rightarrow> ns_branch_name ns | Some x \<Rightarrow> x)"
  "ns_repo_dir (foldl (\<lambda>ns (dst, v). store dst v ns) ns ps) =
     (case given RepoDir ps of None \<Rightarrow> ns_repo_dir ns | Some x \<Rightarrow> x)"
proof (induction ps arbitrary: ns)
  case Nil
  { case 1 show ?case by (simp add: given_def) }
  { case 2 show ?case by (simp add: given_def) }
  { case 3 show ?case by (simp add: given_def) }
next
  case (Cons p ps)
  { case 1 show ?case by (cases p) (simp add: Cons.IH(1) given_Cons split: option.splits) }
  { case 2 show ?case by (cases p) (simp add: Cons.IH(2) given_Cons split: option.splits) }
  { case 3 show ?case by (cases p) (simp add: Cons.IH(3) given_Cons split: option.splits) }
qed

lemma parse_args_render:
  assumes "list_all (\<lambda>(dst, v). dst \<noteq> Help \<and> classify v = Value) ps"
  shows "parse_args (render ps) =
          Some (case given GitUrl ps of
                  None \<Rightarrow> Inl (SystemExit 2)
                | Some url \<Rightarrow>
                    Inr \<lparr>arg_git_url = url,
                         arg_branch_name = (case given BranchName ps of None \<Rightarrow> ustr ''master'' | Some b \<Rightarrow> b),
                         arg_repo_dir = (case given RepoDir ps of None \<Rightarrow> ustr ''./'' | Some d \<Rightarrow> d)\<rparr>)"
  using render_modelled[OF assms] consume_render[OF assms, of defaults False]
  by (simp add: parse_args_def stored_fields defaults_def split: option.splits)

text \<open>
  Claim C10. The constructor fails with an \<open>AssertionError\<close> exactly when the URL or the
  branch name is empty; an empty directory is accepted as it is; and when the assertion
  fails in \<open>main\<close> no process has been run and no line printed.
\<close>

theorem init_asserts_url_and_branch:
  "(init url branch dir = Inl AssertionError) = (url = [] \<or> branch = [])
   \<and> (url \<noteq> [] \<and> branch \<noteq> [] \<longrightarrow>
        init url branch [] = Inr \<lparr>git_url = url, branch_name = branch, repo_dir = []\<rparr>)
   \<and> (parse_args argv = Some (Inr args) \<and> (arg_git_url args = [] \<or> arg_branch_name args = []) \<longrightarrow>
        main e argv h = Some ([], h, Some AssertionError))"
  by (auto simp: init_def main_def)

lemmas argparse_eval = parse_args_def defaults_def candidates_def option_strings_def
  ascii_letter_def selects_def store_def sample_remote_def

theorem init_asserts_url_and_branch_witness:
  "init [] (ustr ''master'') (ustr ''./'') = Inl AssertionError
   \<and> init (ustr ''u'') (ustr ''master'') [] =
        Inr \<lparr>git_url = ustr ''u'', branch_name = ustr ''master'', repo_dir = []\<rparr>
   \<and> main (ascii_env (\<lambda>h c. ([], 0)) True) [ustr ''--git-url'', []] [] = Some ([], [], Some AssertionError)"
proof -
  have p: "parse_args [ustr ''--git-url'', []] =
      Some (Inr \<lparr>arg_git_url = [], arg_branch_name = ustr ''master'', arg_repo_dir = ustr ''./''\<rparr>)"
    by (simp add: argparse_eval)
  from init_asserts_url_and_branch[of "[]" "ustr ''master''" "ustr ''./''" "[ustr ''--git-url'', []]"
        "\<lparr>arg_git_url = [], arg_branch_name = ustr ''master'', arg_repo_dir = ustr ''./''\<rparr>"
        "ascii_env (\<lambda>h c. ([], 0)) True" "[]"]
       init_asserts_url_and_branch[of "ustr ''u''" "ustr ''master''" "[]"] p
  show ?thesis by simp
qed

text \<open>
  Claim C7, amended. A command line the parser accepts has a string that selects
  \<open>--git-url\<close>, and without one (and without the help option) the parser exits with
  status 2. When no string selects \<open>--branch-name\<close> the branch is the fixed name
  \<open>master\<close>, when none selects \<open>--repo-dir\<close> the directory is \<open>./\<close>. A command line of
  options written in full, each with a value, is accepted exactly when \<open>--git-url\<close> is
  among them, and then every option has the last value given for it.
\<close>

theorem parse_args_interface:
  "(parse_args argv = Some (Inr args) \<longrightarrow>
        list_ex (selects GitUrl) argv
      \<and> (\<not> list_ex (selects BranchName) argv \<longrightarrow> arg_branch_name args = ustr ''master'')
      \<and> (\<not> list_ex (selects RepoDir) argv \<longrightarrow> arg_repo_dir args = ustr ''./''))
   \<and> (\<not> list_ex (selects GitUrl) argv \<and> \<not> list_ex (selects Help) argv \<and> parse_args argv \<noteq> None \<longrightarrow>
        parse_args argv = Some (Inl (SystemExit 2)))
   \<and> (list_all (\<lambda>(dst, v). dst \<noteq> Help \<and> classify v = Value) ps \<longrightarrow>
        parse_args (render ps) =
          Some (case given GitUrl ps of
                  None \<Rightarrow> Inl (SystemExit 2)
                | Some url \<Rightarrow>
                    Inr \<lparr>arg_git_url = url,
                         arg_branch_name = (case given BranchName ps of None \<Rightarrow> ustr ''master'' | Some b \<Rightarrow> b),
                         arg_repo_dir = (case given RepoDir ps of None \<Rightarrow> ustr ''./'' | Some d \<Rightarrow> d)\<rparr>))"
proof (intro conjI impI)
  assume ok: "parse_args argv = Some (Inr args)"
  then have c: "consume defaults False argv = Some (Inr args)"
    by (simp add: parse_args_def split: if_splits)
  from consume_required[OF c] show "list_ex (selects GitUrl) argv"
    by (simp add: defaults_def)
  {
    assume "\<not> list_ex (selects BranchName) argv"
    from consume_branch_default[OF c this] show "arg_branch_name args = ustr ''master''"
      by (simp add: defaults_def)
  }
  {
    assume "\<not> list_ex (selects RepoDir) argv"
    from consume_dir_default[OF c this] show "arg_repo_dir args = ustr ''./''"
      by (simp add: defaults_def)
  }
next
  assume a: "\<not> list_ex (selects GitUrl) argv \<and> \<not> list_ex (selects Help) argv \<and> parse_args argv \<noteq> None"
  then obtain r where r: "parse_args argv = Some r" by auto
  then have c: "consume defaults False argv = Some r"
    by (simp add: parse_args_def split: if_splits)
  show "parse_args argv = Some (Inl (SystemExit 2))"
  proof (cases r)
    case (Inl err)
    with c consume_exit[of defaults False argv err] a have "err = SystemExit 2" by blast
    with Inl r show ?thesis by simp
  next
    case (Inr args)
    with c consume_required[of defaults False argv args] a show ?thesis
      by (simp add: defaults_def)
  qed
next
  assume "list_all (\<lambda>(dst, v). dst \<noteq> Help \<and> classify v = Value) ps"
  then show "parse_args (render ps) =
          Some (case given GitUrl ps of
                  None \<Rightarrow> Inl (SystemExit 2)
                | Some url \<Rightarrow>
                    Inr \<lparr>arg_git_url = url,
                         arg_branch_name = (case given BranchName ps of None \<Rightarrow> ustr ''master'' | Some b \<Rightarrow> b),
                         arg_repo_dir = (case given RepoDir ps of None \<Rightarrow> ustr ''./'' | Some d \<Rightarrow> d)\<rparr>)"
    by (rule parse_args_render)
qed

text \<open>
  Claim C7 as stated fails: for a repository whose primary branch is \<open>main\<close>, a command
  line that gives only its URL is parsed to the branch \<open>master\<close>.
\<close>

theorem default_branch_is_not_primary:
  "parse_args [ustr ''--git-url'', remote_url sample_remote] =
     Some (Inr \<lparr>arg_git_url = remote_url sample_remote, arg_branch_name = ustr ''master'',
               arg_repo_dir = ustr ''./''\<rparr>)
   \<and> ustr ''master'' \<noteq> primary_branch sample_remote"
proof -
  have "parse_args [ustr ''--git-url'', remote_url sample_remote] =
     Some (Inr \<lparr>arg_git_url = remote_url sample_remote, arg_branch_name = ustr ''master'',
               arg_repo_dir = ustr ''./''\<rparr>)"
    by (simp add: argparse_eval)
  moreover have "ustr ''master'' \<noteq> primary_branch sample_remote"
    by (simp add: sample_remote_def)
  ultimately show ?thesis by simp
qed

theorem parse_args_interface_witness:
  "parse_args [ustr ''--git'', ustr ''u'', ustr ''--r=w''] =
     Some (Inr \<lparr>arg_git_url = ustr ''u'', arg_branch_name = ustr ''master'', arg_repo_dir = ustr ''w''\<rparr>)
   \<and> list_ex (selects GitUrl) [ustr ''--git'', ustr ''u'', ustr ''--r=w'']
   \<and> arg_branch_name \<lparr>arg_git_url = ustr ''u'', arg_branch_name = ustr ''master'', arg_repo_dir = ustr ''w''\<rparr>
        = ustr ''master''
   \<and> parse_args [ustr ''--branch-name'', ustr ''main''] = Some (Inl (SystemExit 2))
   \<and> parse_args (render [(GitUrl, ustr ''u''), (BranchName, ustr ''dev'')]) =
        Some (Inr \<lparr>arg_git_url = ustr ''u'', arg_branch_name = ustr ''dev'', arg_repo_dir = ustr ''./''\<rparr>)
   \<and> parse_args (render [(BranchName, ustr ''dev'')]) = Some (Inl (SystemExit 2))"
proof -
  let ?argv = "[ustr ''--git'', ustr ''u'', ustr ''--r=w'']"
  let ?args = "\<lparr>arg_git_url = ustr ''u'', arg_branch_name = ustr ''master'', arg_repo_dir = ustr ''w''\<rparr>"
  have p: "parse_args ?argv = Some (Inr ?args)"
    by (simp add: argparse_eval)
  have nb: "\<not> list_ex (selects BranchName) ?argv"
    by (simp add: argparse_eval)
  from parse_args_interface[of ?argv ?args] p nb
  have A: "list_ex (selects GitUrl) ?argv \<and> arg_branch_name ?args = ustr ''master''"
    by blast
  let ?bad = "[ustr ''--branch-name'', ustr ''main'']"
  have m: "parse_args ?bad \<noteq> None"
    by (simp add: argparse_eval)
  have n: "\<not> list_ex (selects GitUrl) ?bad" "\<not> list_ex (selects Help) ?bad"
    by (simp_all add: argparse_eval)
  from parse_args_interface[of ?bad] m n
  have B: "parse_args ?bad = Some (Inl (SystemExit 2))" by blast
  have v: "list_all (\<lambda>(dst, v). dst \<noteq> Help \<and> classify v = Value) [(GitUrl, ustr ''u''), (BranchName, ustr ''dev'')]"
    "list_all (\<lambda>(dst, v). dst \<noteq> Help \<and> classify v = Value) [(BranchName, ustr ''dev'')]"
    by (simp_all add: argparse_eval)
  from parse_args_interface[of _ _ "[(GitUrl, ustr ''u''), (BranchName, ustr ''dev'')]"] v(1)
  have C: "parse_args (render [(GitUrl, ustr ''u''), (BranchName, ustr ''dev'')]) =
        Some (Inr \<lparr>arg_git_url = ustr ''u'', arg_branch_name = ustr ''dev'', arg_repo_dir = ustr ''./''\<rparr>)"
    by (simp add: given_def)
  from parse_args_interface[of _ _ "[(BranchName, ustr ''dev'')]"] v(2)
  have D: "parse_args (render [(BranchName, ustr ''dev'')]) = Some (Inl (SystemExit 2))"
    by (simp add: given_def)
  from p A B C D show ?thesis by blast
qed

section \<open>Runs of composed generators\<close>

lemma then_gen_hist:
  "hist_of (then_gen f g h) = (if err_of (f h) = None then hist_of (g (hist_of (f h))) else hist_of (f h))"
  by (cases "f h"; cases "g (hist_of (f h))") (auto simp: then_gen_def)

lemma then_gen_err:
  "err_of (then_gen f g h) = (if err_of (f h) = None then err_of (g (hist_of (f h))) else err_of (f h))"
  by (cases "f h"; cases "g (hist_of (f h))") (auto simp: then_gen_def)

lemma then_gen_lines:
  "lines_of (then_gen f g h) =
     (if err_of (f h) = None then lines_of (f h) @ lines_of (g (hist_of (f h))) else lines_of (f h))"
  by (cases "f h"; cases "g (hist_of (f h))") (auto simp: then_gen_def)

lemma try_except_hist:
  "hist_of (try_except f k h) =
     (case err_of (f h) of None \<Rightarrow> hist_of (f h) | Some x \<Rightarrow> hist_of (k x (hist_of (f h))))"
  by (cases "f h"; cases "err_of (f h)"; cases "k (the (err_of (f h))) (hist_of (f h))")
     (auto simp: try_except_def)

lemma try_except_err:
  "err_of (try_except f k h) =
     (case err_of (f h) of None \<Rightarrow> None | Some x \<Rightarrow> err_of (k x (hist_of (f h))))"
  by (cases "f h"; cases "err_of (f h)"; cases "k (the (err_of (f h))) (hist_of (f h))")
     (auto simp: try_except_def)

lemma try_except_lines:
  "lines_of (try_except f k h) =
     (case err_of (f h) of None \<Rightarrow> lines_of (f h)
      | Some x \<Rightarrow> lines_of (f h) @ lines_of (k x (hist_of (f h))))"
  by (cases "f h"; cases "err_of (f h)"; cases "k (the (err_of (f h))) (hist_of (f h))")
     (auto simp: try_except_def)

lemma pass_run [simp]: "hist_of (pass h) = h" "err_of (pass h) = None" "lines_of (pass h) = []"
  by (simp_all add: pass_def)

lemma raise_run [simp]: "hist_of (raise x h) = h" "err_of (raise x h) = Some x" "lines_of (raise x h) = []"
  by (simp_all add: raise_def)

lemma swallow_called [simp]:
  "hist_of (swallow code x h) = h"
  "lines_of (swallow code x h) = []"
  "err_of (swallow code (CalledProcessError rc c) h) = (if rc \<noteq> code then Some (CalledProcessError rc c) else None)"
  by (simp_all add: swallow_def split: error.splits)

lemma run_eqI:
  "lines_of r = lines_of r' \<Longrightarrow> hist_of r = hist_of r' \<Longrightarrow> err_of r = err_of r' \<Longrightarrow> r = r'"
  by (simp add: lines_of_def hist_of_def err_of_def prod_eq_iff)

lemmas gen_simps = then_gen_hist then_gen_err then_gen_lines try_except_hist try_except_err
  try_except_lines failure_def

section \<open>The existence check and the reset of deleted files\<close>

lemma exists_check_hist:
  "hist_of (raise_error_if_git_file_not_exists e self f h) =
     (if returncode e h (Popen fetch_cmd (in_repo self)) = 0 \<or> returncode e h (Popen fetch_cmd (in_repo self)) = 1
      then h @ [Popen fetch_cmd (in_repo self), Popen (cat_file_cmd self f) (in_repo self)]
      else h @ [Popen fetch_cmd (in_repo self)])"
  by (simp add: raise_error_if_git_file_not_exists_def gen_simps)

lemma exists_check_err:
  "err_of (raise_error_if_git_file_not_exists e self f h) =
     (if returncode e h (Popen fetch_cmd (in_repo self)) = 0 \<or> returncode e h (Popen fetch_cmd (in_repo self)) = 1
      then failure e (h @ [Popen fetch_cmd (in_repo self)]) (cat_file_cmd self f) (in_repo self)
      else Some (CalledProcessError (returncode e h (Popen fetch_cmd (in_repo self))) fetch_cmd))"
  by (simp add: raise_error_if_git_file_not_exists_def gen_simps)

lemma reset_file_hist:
  "hist_of (reset_file e self f h) =
     (if err_of (raise_error_if_git_file_not_exists e self f h) = None
      then hist_of (raise_error_if_git_file_not_exists e self f h) @ [Popen (restore_cmd f) (in_repo self)]
      else hist_of (raise_error_if_git_file_not_exists e self f h))"
  by (simp add: reset_file_def gen_simps split: option.splits)

lemma reset_file_err:
  "err_of (reset_file e self f h) =
     (case err_of (raise_error_if_git_file_not_exists e self f h) of
        None \<Rightarrow> (if returncode e (hist_of (raise_error_if_git_file_not_exists e self f h))
                        (Popen (restore_cmd f) (in_repo self)) \<in> {0, 128} then None
                 else failure e (hist_of (raise_error_if_git_file_not_exists e self f h)) (restore_cmd f) (in_repo self))
      | Some x \<Rightarrow> err_of (swallow 128 x (hist_of (raise_error_if_git_file_not_exists e self f h))))"
  by (simp add: reset_file_def gen_simps split: option.splits)

lemma reset_file_lines:
  "lines_of (reset_file e self f h) =
     (if err_of (raise_error_if_git_file_not_exists e self f h) = None
      then lines_of (raise_error_if_git_file_not_exists e self f h) @
           lines_of (execute_cmd e (restore_cmd f) (in_repo self) (hist_of (raise_error_if_git_file_not_exists e self f h)))
      else lines_of (raise_error_if_git_file_not_exists e self f h))"
  by (simp add: reset_file_def gen_simps split: option.splits)

lemma scripted_returncode [simp]:
  "returncode (scripted st rc) h (Popen cmd cwd) = rc cmd"
  "returncode (scripted st rc) h (CheckOutput cmd cwd) = 0"
  by (simp_all add: scripted_def ascii_env_def returncode_def)

lemma scripted_proc [simp]:
  "proc (scripted st rc) h (Popen cmd cwd) = ([], rc cmd)"
  "proc (scripted st rc) h (CheckOutput cmd cwd) = (st, 0)"
  "decode_strict (scripted st rc) b = Some (ustr b)"
  "path_exists (scripted st rc) h d = True"
  by (simp_all add: scripted_def ascii_env_def)

lemma reset_files_Cons_hist:
  "hist_of (reset_files e self (f # rest) h) =
     (if err_of (reset_file e self f h) = None
      then hist_of (reset_files e self rest (hist_of (reset_file e self f h)))
      else hist_of (reset_file e self f h))"
  by (simp add: then_gen_hist)

lemma reset_files_Cons_err:
  "err_of (reset_files e self (f # rest) h) =
     (if err_of (reset_file e self f h) = None
      then err_of (reset_files e self rest (hist_of (reset_file e self f h)))
      else err_of (reset_file e self f h))"
  by (simp add: then_gen_err)

lemma reset_files_Nil [simp]:
  "hist_of (reset_files e self [] h) = h" "err_of (reset_files e self [] h) = None"
  by simp_all

text \<open>
  One round of the loop, for a path \<open>f\<close> reached with history \<open>h\<close>, when the fetch exits
  with 0 or with 1: the loop asks \<open>git cat-file -e origin/<branch>:<f>\<close>. On status 0 it
  runs \<open>git checkout -- f\<close> and, if that exits with 0 or 128, goes on with the remaining
  paths; on status 128 nothing more is run for \<open>f\<close>, no error is raised and the loop goes
  on with the remaining paths; any other status of either command ends the loop there with
  that \<open>CalledProcessError\<close>, the remaining paths not looked at.
\<close>

lemma reset_files_step:
  assumes "returncode e h (Popen fetch_cmd (in_repo self)) \<in> {0, 1}"
  shows "let hc = h @ [Popen fetch_cmd (in_repo self), Popen (cat_file_cmd self f) (in_repo self)];
             rc = returncode e (h @ [Popen fetch_cmd (in_repo self)]) (Popen (cat_file_cmd self f) (in_repo self));
             hr = hc @ [Popen (restore_cmd f) (in_repo self)];
             rr = returncode e hc (Popen (restore_cmd f) (in_repo self))
         in hist_of (raise_error_if_git_file_not_exists e self f h) = hc
          \<and> (rc = 0 \<longrightarrow> hist_of (reset_file e self f h) = hr)
          \<and> (rc = 0 \<and> (rr = 0 \<or> rr = 128) \<longrightarrow>
                hist_of (reset_files e self (f # rest) h) = hist_of (reset_files e self rest hr)
              \<and> err_of (reset_files e self (f # rest) h) = err_of (reset_files e self rest hr))
          \<and> (rc = 0 \<and> rr \<noteq> 0 \<and> rr \<noteq> 128 \<longrightarrow>
                hist_of (reset_files e self (f # rest) h) = hr
              \<and> err_of (reset_files e self (f # rest) h) = Some (CalledProcessError rr (restore_cmd f)))
          \<and> (rc = 128 \<longrightarrow>
                hist_of (reset_file e self f h) = hc \<and> err_of (reset_file e self f h) = None
              \<and> hist_of (reset_files e self (f # rest) h) = hist_of (reset_files e self rest hc)
              \<and> err_of (reset_files e self (f # rest) h) = err_of (reset_files e self rest hc))
          \<and> (rc \<noteq> 0 \<and> rc \<noteq> 128 \<longrightarrow>
                hist_of (reset_files e self (f # rest) h) = hc
              \<and> err_of (reset_files e self (f # rest) h) = Some (CalledProcessError rc (cat_file_cmd self f)))"
proof -
  from assms have fetch: "returncode e h (Popen fetch_cmd (in_repo self)) = 0 \<or>
      returncode e h (Popen fetch_cmd (in_repo self)) = 1" by simp
  show ?thesis
    using fetch
    by (simp add: Let_def reset_files_Cons_hist reset_files_Cons_err reset_file_hist reset_file_err
          exists_check_hist exists_check_err failure_def del: reset_files.simps)
qed

text \<open>The paths the loop goes through are those the pattern finds in the output of \<open>git status\<close>.\<close>

lemma reset_deleted_files_loop:
  assumes "proc e h (CheckOutput status_cmd (in_repo self)) = (b, 0)"
      and "decode_strict e b = Some text"
  shows "reset_deleted_files e self h =
           reset_files e self (findall_deleted 0 text) (h @ [CheckOutput status_cmd (in_repo self)])"
  using assms by (simp add: reset_deleted_files_def check_output_def)

text \<open>
  Claim C8. The restore runs inside the same handler as the existence check: when the
  check passes and \<open>git checkout -- f\<close> itself exits with 128, no error is raised and the
  loop goes on with the remaining paths.
\<close>

theorem restore_failure_128_swallowed:
  assumes "err_of (raise_error_if_git_file_not_exists e self f h) = None"
      and "returncode e (hist_of (raise_error_if_git_file_not_exists e self f h))
             (Popen (restore_cmd f) (in_repo self)) = 128"
  shows "let hr = hist_of (raise_error_if_git_file_not_exists e self f h) @ [Popen (restore_cmd f) (in_repo self)]
         in hist_of (reset_file e self f h) = hr \<and> err_of (reset_file e self f h) = None
          \<and> hist_of (reset_files e self (f # rest) h) = hist_of (reset_files e self rest hr)
          \<and> err_of (reset_files e self (f # rest) h) = err_of (reset_files e self rest hr)"
  using assms
  by (simp add: Let_def reset_files_Cons_hist reset_files_Cons_err reset_file_hist reset_file_err
        del: reset_files.simps)

text \<open>
  What the exit status of the fetch leads to. With 0 or 1, \<open>git cat-file\<close> runs next and
  decides the outcome. Any other status is raised again by the existence check,
  \<open>git cat-file\<close> not run; the handler of the loop then lets it end the loop, unless the
  status is 128, which it takes for the sign of a path absent upstream.
\<close>

lemma fetch_status_in_existence_check:
  "let rf = returncode e h (Popen fetch_cmd (in_repo self));
       h1 = h @ [Popen fetch_cmd (in_repo self)]
   in (rf = 0 \<or> rf = 1 \<longrightarrow>
         hist_of (raise_error_if_git_file_not_exists e self f h) = h1 @ [Popen (cat_file_cmd self f) (in_repo self)]
       \<and> err_of (raise_error_if_git_file_not_exists e self f h) = failure e h1 (cat_file_cmd self f) (in_repo self))
    \<and> (rf \<noteq> 0 \<and> rf \<noteq> 1 \<longrightarrow>
         hist_of (raise_error_if_git_file_not_exists e self f h) = h1
       \<and> err_of (raise_error_if_git_file_not_exists e self f h) = Some (CalledProcessError rf fetch_cmd))
    \<and> (rf \<noteq> 0 \<and> rf \<noteq> 1 \<and> rf \<noteq> 128 \<longrightarrow>
         hist_of (reset_files e self (f # rest) h) = h1
       \<and> err_of (reset_files e self (f # rest) h) = Some (CalledProcessError rf fetch_cmd))
    \<and> (rf = 128 \<longrightarrow>
         hist_of (reset_file e self f h) = h1 \<and> err_of (reset_file e self f h) = None)"
  by (simp add: Let_def reset_files_Cons_hist reset_files_Cons_err reset_file_hist reset_file_err
        exists_check_hist exists_check_err del: reset_files.simps)


lemmas cmd_defs = git_def fetch_cmd_def cat_file_cmd_def restore_cmd_def clone_cmd_def checkout_cmd_def
  add_cmd_def config_email_cmd_def config_name_cmd_def commit_cmd_def merge_cmd_def status_cmd_def
  porcelain_cmd_def in_repo_def sample_repo_def file_a_def file_b_def file_c_def file_d_def

lemma cat_file_script_values:
  "cat_file_script fetch_cmd = 0"
  "cat_file_script (cat_file_cmd sample_repo file_a) = 128"
  "cat_file_script (cat_file_cmd sample_repo file_b) = 0"
  "cat_file_script (cat_file_cmd sample_repo file_c) = 2"
  "cat_file_script (restore_cmd file_b) = 0"
  by (simp_all add: cat_file_script_def cmd_defs)

lemma reset_files_step_example:
  "hist_of (reset_file (scripted status_deleted cat_file_script) sample_repo file_b []) =
     [Popen fetch_cmd (in_repo sample_repo), Popen (cat_file_cmd sample_repo file_b) (in_repo sample_repo),
      Popen (restore_cmd file_b) (in_repo sample_repo)]
   \<and> hist_of (reset_file (scripted status_deleted cat_file_script) sample_repo file_a []) =
     [Popen fetch_cmd (in_repo sample_repo), Popen (cat_file_cmd sample_repo file_a) (in_repo sample_repo)]
   \<and> err_of (reset_file (scripted status_deleted cat_file_script) sample_repo file_a []) = None
   \<and> hist_of (reset_files (scripted status_deleted cat_file_script) sample_repo [file_c, file_d] []) =
     [Popen fetch_cmd (in_repo sample_repo), Popen (cat_file_cmd sample_repo file_c) (in_repo sample_repo)]
   \<and> err_of (reset_files (scripted status_deleted cat_file_script) sample_repo [file_c, file_d] []) =
     Some (CalledProcessError 2 (cat_file_cmd sample_repo file_c))"
proof -
  let ?e = "scripted status_deleted cat_file_script"
  have fetch: "returncode ?e [] (Popen fetch_cmd (in_repo sample_repo)) \<in> {0, 1}"
    by (simp add: cat_file_script_values)
  from reset_files_step[OF fetch, of "file_b"]
       reset_files_step[OF fetch, of "file_a"]
       reset_files_step[OF fetch, of "file_c" "[file_d]"]
  show ?thesis
    by (simp add: Let_def cat_file_script_values del: reset_files.simps)
qed

theorem restore_failure_128_swallowed_witness:
  "hist_of (reset_file (scripted status_deleted restore_script) sample_repo file_a []) =
     [Popen fetch_cmd (in_repo sample_repo), Popen (cat_file_cmd sample_repo file_a) (in_repo sample_repo),
      Popen (restore_cmd file_a) (in_repo sample_repo)]
   \<and> err_of (reset_file (scripted status_deleted restore_script) sample_repo file_a []) = None
   \<and> hist_of (reset_files (scripted status_deleted restore_script) sample_repo [file_a, file_b] []) =
     [Popen fetch_cmd (in_repo sample_repo), Popen (cat_file_cmd sample_repo file_a) (in_repo sample_repo),
      Popen (restore_cmd file_a) (in_repo sample_repo),
      Popen fetch_cmd (in_repo sample_repo), Popen (cat_file_cmd sample_repo file_b) (in_repo sample_repo),
      Popen (restore_cmd file_b) (in_repo sample_repo)]
   \<and> err_of (reset_files (scripted status_deleted restore_script) sample_repo [file_a, file_b] []) = None"
proof -
  let ?e = "scripted status_deleted restore_script"
  have v: "restore_script fetch_cmd = 0" "restore_script (cat_file_cmd sample_repo file_a) = 0"
    "restore_script (cat_file_cmd sample_repo file_b) = 0"
    "restore_script (restore_cmd file_a) = 128" "restore_script (restore_cmd file_b) = 0"
    by (simp_all add: restore_script_def cmd_defs)
  have a: "err_of (raise_error_if_git_file_not_exists ?e sample_repo file_a []) = None"
    by (simp add: exists_check_err v)
  have h: "hist_of (raise_error_if_git_file_not_exists ?e sample_repo file_a []) =
      [Popen fetch_cmd (in_repo sample_repo), Popen (cat_file_cmd sample_repo file_a) (in_repo sample_repo)]"
    by (simp add: exists_check_hist v)
  have b: "returncode ?e (hist_of (raise_error_if_git_file_not_exists ?e sample_repo file_a []))
      (Popen (restore_cmd file_a) (in_repo sample_repo)) = 128"
    by (simp add: v)
  have rest: "hist_of (reset_files ?e sample_repo [file_b]
        [Popen fetch_cmd (in_repo sample_repo), Popen (cat_file_cmd sample_repo file_a) (in_repo sample_repo),
         Popen (restore_cmd file_a) (in_repo sample_repo)]) =
     [Popen fetch_cmd (in_repo sample_repo), Popen (cat_file_cmd sample_repo file_a) (in_repo sample_repo),
      Popen (restore_cmd file_a) (in_repo sample_repo),
      Popen fetch_cmd (in_repo sample_repo), Popen (cat_file_cmd sample_repo file_b) (in_repo sample_repo),
      Popen (restore_cmd file_b) (in_repo sample_repo)]"
    "err_of (reset_files ?e sample_repo [file_b]
        [Popen fetch_cmd (in_repo sample_repo), Popen (cat_file_cmd sample_repo file_a) (in_repo sample_repo),
         Popen (restore_cmd file_a) (in_repo sample_repo)]) = None"
    by (simp_all add: reset_files_Cons_hist reset_files_Cons_err reset_file_hist reset_file_err
          exists_check_hist exists_check_err failure_def v del: reset_files.simps)
  from restore_failure_128_swallowed[OF a b, of "[file_b]"] h rest
  show ?thesis by (simp add: Let_def del: reset_files.simps)
qed

text \<open>
  Claim C5. A fetch that fails with a status other than 1 is not always fatal: with one
  deleted path and a fetch that exits with 128, \<open>_reset_deleted_files\<close> runs the status
  query and the fetch, skips the path and ends without an error.
\<close>

theorem fetch_128_is_not_fatal:
  "returncode (scripted status_deleted (fetch_script 128)) [CheckOutput status_cmd (in_repo sample_repo)]
     (Popen fetch_cmd (in_repo sample_repo)) = 128
   \<and> hist_of (reset_deleted_files (scripted status_deleted (fetch_script 128)) sample_repo []) =
       [CheckOutput status_cmd (in_repo sample_repo), Popen fetch_cmd (in_repo sample_repo)]
   \<and> err_of (reset_deleted_files (scripted status_deleted (fetch_script 128)) sample_repo []) = None"
proof -
  have f: "findall_deleted 0 (ustr status_deleted) = [file_a]"
    by (simp add: file_a_def status_deleted_def deleted_match_here_def isspace_def not_eol_def NL_def CR_def bNL_def)
  have v: "fetch_script 128 fetch_cmd = 128" by (simp add: fetch_script_def)
  show ?thesis
    by (simp add: reset_deleted_files_def check_output_def f v reset_files_Cons_hist reset_files_Cons_err
          reset_file_hist reset_file_err exists_check_hist exists_check_err failure_def del: reset_files.simps)
qed

text \<open>
  Claim C3. A deleted path that exists upstream is not always checked and restored: with
  two deleted paths for which \<open>git cat-file\<close> would exit with 0, and a fetch that exits
  with 128, \<open>_reset_deleted_files\<close> runs the status query and one fetch for each path,
  neither \<open>git cat-file\<close> nor \<open>git checkout\<close>, and ends without an error. When the fetch
  exits with 0 both paths are checked and restored.
\<close>

theorem deleted_paths_skipped_when_fetch_fails:
  "findall_deleted 0 (ustr status_two_deleted) = [file_a, file_b]
   \<and> returncode (scripted status_two_deleted (fetch_script 128))
         [CheckOutput status_cmd (in_repo sample_repo), Popen fetch_cmd (in_repo sample_repo)]
         (Popen (cat_file_cmd sample_repo file_a) (in_repo sample_repo)) = 0
   \<and> hist_of (reset_deleted_files (scripted status_two_deleted (fetch_script 128)) sample_repo []) =
       [CheckOutput status_cmd (in_repo sample_repo), Popen fetch_cmd (in_repo sample_repo),
        Popen fetch_cmd (in_repo sample_repo)]
   \<and> err_of (reset_deleted_files (scripted status_two_deleted (fetch_script 128)) sample_repo []) = None
   \<and> hist_of (reset_deleted_files (scripted status_two_deleted (fetch_script 0)) sample_repo []) =
       [CheckOutput status_cmd (in_repo sample_repo),
        Popen fetch_cmd (in_repo sample_repo), Popen (cat_file_cmd sample_repo file_a) (in_repo sample_repo),
        Popen (restore_cmd file_a) (in_repo sample_repo),
        Popen fetch_cmd (in_repo sample_repo), Popen (cat_file_cmd sample_repo file_b) (in_repo sample_repo),
        Popen (restore_cmd file_b) (in_repo sample_repo)]"
proof -
  have f: "findall_deleted 0 (ustr status_two_deleted) = [file_a, file_b]"
    by (simp add: file_a_def file_b_def status_two_deleted_def deleted_match_here_def isspace_def
          not_eol_def NL_def CR_def bNL_def)
  have v: "\<And>c. fetch_script c fetch_cmd = c"
    "\<And>c. fetch_script c (cat_file_cmd sample_repo file_a) = 0"
    "\<And>c. fetch_script c (cat_file_cmd sample_repo file_b) = 0"
    "\<And>c. fetch_script c (restore_cmd file_a) = 0"
    "\<And>c. fetch_script c (restore_cmd file_b) = 0"
    by (simp_all add: fetch_script_def cmd_defs)
  show ?thesis
    by (simp add: reset_deleted_files_def check_output_def f v reset_files_Cons_hist reset_files_Cons_err
          reset_file_hist reset_file_err exists_check_hist exists_check_err failure_def
          del: reset_files.simps)
qed

lemma fetch_status_in_existence_check_example:
  "err_of (raise_error_if_git_file_not_exists (scripted status_deleted (fetch_script 1)) sample_repo file_a []) = None
   \<and> hist_of (raise_error_if_git_file_not_exists (scripted status_deleted (fetch_script 1)) sample_repo file_a []) =
       [Popen fetch_cmd (in_repo sample_repo), Popen (cat_file_cmd sample_repo file_a) (in_repo sample_repo)]
   \<and> err_of (raise_error_if_git_file_not_exists (scripted status_deleted (fetch_script 128)) sample_repo file_a []) =
       Some (CalledProcessError 128 fetch_cmd)
   \<and> err_of (reset_file (scripted status_deleted (fetch_script 128)) sample_repo file_a []) = None
   \<and> err_of (reset_files (scripted status_deleted (fetch_script 2)) sample_repo [file_a, file_b] []) =
       Some (CalledProcessError 2 fetch_cmd)
   \<and> hist_of (reset_files (scripted status_deleted (fetch_script 2)) sample_repo [file_a, file_b] []) =
       [Popen fetch_cmd (in_repo sample_repo)]"
proof -
  have v: "\<And>code. fetch_script code fetch_cmd = code"
    "\<And>code. fetch_script code (cat_file_cmd sample_repo file_a) = 0"
    by (simp_all add: fetch_script_def cmd_defs)
  from fetch_status_in_existence_check[of "scripted status_deleted (fetch_script 1)" "[]" sample_repo "file_a"]
       fetch_status_in_existence_check[of "scripted status_deleted (fetch_script 128)" "[]" sample_repo "file_a"]
       fetch_status_in_existence_check[of "scripted status_deleted (fetch_script 2)" "[]" sample_repo "file_a" "[file_b]"]
  show ?thesis
    by (simp add: Let_def v failure_def del: reset_files.simps)
qed

section \<open>Commit, save, pull\<close>

lemma make_commit_ok:
  "err_of (make_commit e self h) = None \<Longrightarrow> hist_of (make_commit e self h) = h @ commit_calls self"
  by (simp add: make_commit_def gen_simps commit_calls_def split: if_splits)

lemma make_commit_hist_take:
  "\<exists>k. hist_of (make_commit e self h) = h @ take k (commit_calls self)"
proof -
  have "hist_of (make_commit e self h) \<in>
      {h @ take 1 (commit_calls self), h @ take 2 (commit_calls self),
       h @ take 3 (commit_calls self), h @ take 4 (commit_calls self)}"
    by (simp add: make_commit_def gen_simps commit_calls_def)
  then show ?thesis by blast
qed

lemma merge_not_commit_call: "Popen (merge_cmd self) (in_repo self) \<notin> set (commit_calls self)"
  by (simp add: commit_calls_def merge_cmd_def add_cmd_def config_email_cmd_def config_name_cmd_def
        commit_cmd_def git_def)

lemma merge_not_checkout_fetch:
  "Popen (merge_cmd self) (in_repo self) \<noteq> Popen (checkout_cmd self) (in_repo self)"
  "Popen (merge_cmd self) (in_repo self) \<noteq> Popen fetch_cmd (in_repo self)"
  by (simp_all add: merge_cmd_def checkout_cmd_def fetch_cmd_def git_def)

lemma count_list_take_zero: "x \<notin> set xs \<Longrightarrow> count_list (take k xs) x = 0"
  by (metis count_list_0_iff in_set_takeD)

lemma save_local_changes_ok:
  "err_of (save_local_changes e self h) = None \<Longrightarrow>
   hist_of (save_local_changes e self h) = h @ [Popen (checkout_cmd self) (in_repo self)] @ commit_calls self"
  by (simp add: save_local_changes_def then_gen_hist then_gen_err make_commit_ok split: if_splits)

lemma merge_handler_called:
  "merge_handler e self (CalledProcessError rc c) =
     (if rc = 1 then then_gen (make_commit e self) (execute_cmd e (merge_cmd self) (in_repo self))
      else raise (CalledProcessError rc c))"
  by (simp add: merge_handler_def)

lemma pull_hist:
  assumes "returncode e h (Popen (checkout_cmd self) (in_repo self)) = 0"
      and "returncode e (h @ [Popen (checkout_cmd self) (in_repo self)]) (Popen fetch_cmd (in_repo self)) = 0"
  shows "hist_of (pull_and_resolve_conflicts e self h) =
     (let m = Popen (merge_cmd self) (in_repo self);
          hm = h @ [Popen (checkout_cmd self) (in_repo self), Popen fetch_cmd (in_repo self)];
          C = make_commit e self (hm @ [m])
      in if returncode e hm m = 1 then (if err_of C = None then hist_of C @ [m] else hist_of C)
         else hm @ [m])"
  using assms
  by (simp add: pull_and_resolve_conflicts_def gen_simps merge_handler_called Let_def)

lemma pull_err:
  assumes "returncode e h (Popen (checkout_cmd self) (in_repo self)) = 0"
      and "returncode e (h @ [Popen (checkout_cmd self) (in_repo self)]) (Popen fetch_cmd (in_repo self)) = 0"
  shows "err_of (pull_and_resolve_conflicts e self h) =
     (let m = Popen (merge_cmd self) (in_repo self);
          hm = h @ [Popen (checkout_cmd self) (in_repo self), Popen fetch_cmd (in_repo self)];
          C = make_commit e self (hm @ [m])
      in if returncode e hm m = 1
         then (if err_of C = None then failure e (hist_of C) (merge_cmd self) (in_repo self) else err_of C)
         else failure e hm (merge_cmd self) (in_repo self))"
  using assms
  by (simp add: pull_and_resolve_conflicts_def gen_simps merge_handler_called Let_def)

text \<open>
  Claim C2. In \<open>_pull_and_resolve_conflicts\<close>, once the checkout and the fetch have
  succeeded: a merge that succeeds ends the step; a merge that exits with 1 is followed
  by the four commands of the checkpoint commit and, when they succeed, by the same merge
  once more, whose failure is raised whatever its status (also 1); a failing commit
  command is raised and the merge not run again; a merge that fails with a status other
  than 1 is raised at once. The merge is never run more than twice.
\<close>

theorem merge_conflict_single_retry:
  assumes "returncode e h (Popen (checkout_cmd self) (in_repo self)) = 0"
      and "returncode e (h @ [Popen (checkout_cmd self) (in_repo self)]) (Popen fetch_cmd (in_repo self)) = 0"
  shows "let m = Popen (merge_cmd self) (in_repo self);
             hm = h @ [Popen (checkout_cmd self) (in_repo self), Popen fetch_cmd (in_repo self)];
             r1 = returncode e hm m;
             C = make_commit e self (hm @ [m]);
             P = pull_and_resolve_conflicts e self h
         in (r1 = 0 \<longrightarrow> hist_of P = hm @ [m] \<and> err_of P = None)
          \<and> (r1 = 1 \<and> err_of C = None \<longrightarrow>
                hist_of P = hm @ [m] @ commit_calls self @ [m]
              \<and> err_of P = failure e (hm @ [m] @ commit_calls self) (merge_cmd self) (in_repo self))
          \<and> (r1 = 1 \<and> err_of C \<noteq> None \<longrightarrow> hist_of P = hist_of C \<and> err_of P = err_of C)
          \<and> (r1 \<noteq> 0 \<and> r1 \<noteq> 1 \<longrightarrow>
                hist_of P = hm @ [m] \<and> err_of P = Some (CalledProcessError r1 (merge_cmd self)))
          \<and> count_list (hist_of P) m \<le> count_list h m + 2"
proof -
  let ?m = "Popen (merge_cmd self) (in_repo self)"
  let ?hm = "h @ [Popen (checkout_cmd self) (in_repo self), Popen fetch_cmd (in_repo self)]"
  let ?C = "make_commit e self (?hm @ [?m])"
  let ?P = "pull_and_resolve_conflicts e self h"
  note H = pull_hist[OF assms] pull_err[OF assms]
  have a: "returncode e ?hm ?m = 0 \<longrightarrow> hist_of ?P = ?hm @ [?m] \<and> err_of ?P = None"
    using H by (simp add: Let_def)
  have b: "returncode e ?hm ?m = 1 \<and> err_of ?C = None \<longrightarrow>
        hist_of ?P = ?hm @ [?m] @ commit_calls self @ [?m]
      \<and> err_of ?P = failure e (?hm @ [?m] @ commit_calls self) (merge_cmd self) (in_repo self)"
    using H make_commit_ok[of e self "?hm @ [?m]"] by (simp add: Let_def)
  have c: "returncode e ?hm ?m = 1 \<and> err_of ?C \<noteq> None \<longrightarrow> hist_of ?P = hist_of ?C \<and> err_of ?P = err_of ?C"
    using H by (simp add: Let_def)
  have d: "returncode e ?hm ?m \<noteq> 0 \<and> returncode e ?hm ?m \<noteq> 1 \<longrightarrow>
        hist_of ?P = ?hm @ [?m] \<and> err_of ?P = Some (CalledProcessError (returncode e ?hm ?m) (merge_cmd self))"
    using H by (simp add: Let_def failure_def)
  define hm1 where "hm1 = ?hm @ [?m]"
  obtain k where k: "hist_of ?C = hm1 @ take k (commit_calls self)"
    using make_commit_hist_take unfolding hm1_def by blast
  have cnt: "count_list (take k (commit_calls self)) ?m = 0"
    by (rule count_list_take_zero) (rule merge_not_commit_call)
  have base: "count_list hm1 ?m = count_list h ?m + 1"
    using merge_not_checkout_fetch[of self] by (simp add: hm1_def)
  have "hist_of ?P = hm1 \<or> hist_of ?P = hist_of ?C \<or> hist_of ?P = hist_of ?C @ [?m]"
    using H by (simp add: Let_def hm1_def)
  then consider "hist_of ?P = hm1" | "hist_of ?P = hm1 @ take k (commit_calls self)"
    | "hist_of ?P = hm1 @ take k (commit_calls self) @ [?m]"
    using k by auto
  then have e: "count_list (hist_of ?P) ?m \<le> count_list h ?m + 2"
  proof cases
    case 1
    with base show ?thesis by simp
  next
    case 2
    with base cnt show ?thesis by simp
  next
    case 3
    with base cnt show ?thesis by simp
  qed
  from a b c d e show ?thesis unfolding Let_def by blast
qed

lemma initialize_repo_hist:
  "hist_of (initialize_repo e self h) =
     (if returncode e h (Popen (clone_cmd self) None) = 0
      then h @ [Popen (clone_cmd self) None, Popen (checkout_cmd self) (in_repo self)]
      else h @ [Popen (clone_cmd self) None])"
  by (simp add: initialize_repo_def gen_simps)

lemma initialize_repo_err:
  "err_of (initialize_repo e self h) =
     (if returncode e h (Popen (clone_cmd self) None) = 0
      then failure e (h @ [Popen (clone_cmd self) None]) (checkout_cmd self) (in_repo self)
      else failure e h (clone_cmd self) None)"
  by (simp add: initialize_repo_def then_gen_err)

lemma repo_is_dirty_hist:
  "snd (repo_is_dirty e self h) = h @ [CheckOutput porcelain_cmd (in_repo self)]"
  by (simp add: repo_is_dirty_def check_output_def split: prod.splits option.splits)

lemma update_repo_run:
  "update_repo e self h =
     (let R = reset_deleted_files e self h;
          hq = hist_of R @ [CheckOutput porcelain_cmd (in_repo self)]
      in case err_of R of
           Some x \<Rightarrow> R
         | None \<Rightarrow>
             (case fst (repo_is_dirty e self (hist_of R)) of
                Inl x \<Rightarrow> (lines_of R, hq, Some x)
              | Inr dirty \<Rightarrow>
                  (let G = then_gen (if dirty then save_local_changes e self else pass)
                             (pull_and_resolve_conflicts e self) hq
                   in (lines_of R @ lines_of G, hist_of G, err_of G))))"
proof -
  obtain ls h1 r where R: "reset_deleted_files e self h = (ls, h1, r)"
    by (cases "reset_deleted_files e self h") auto
  obtain d h2 where D: "repo_is_dirty e self h1 = (d, h2)"
    by (cases "repo_is_dirty e self h1") auto
  with repo_is_dirty_hist[of e self h1] have h2: "h2 = h1 @ [CheckOutput porcelain_cmd (in_repo self)]"
    by simp
  show ?thesis
  proof (cases r)
    case None
    show ?thesis
    proof (cases d)
      case (Inl x)
      with R D h2 None show ?thesis
        by (simp add: update_repo_def then_gen_def Let_def)
    next
      case (Inr dirty)
      with R D h2 None show ?thesis
        by (cases "then_gen (if dirty then save_local_changes e self else pass)
                     (pull_and_resolve_conflicts e self) h2")
           (simp add: update_repo_def then_gen_def[of "reset_deleted_files e self"] Let_def)
    qed
  next
    case (Some x)
    with R show ?thesis by (simp add: update_repo_def then_gen_def Let_def)
  qed
qed

text \<open>
  Claim C1. When the directory does not exist, \<open>pull_from_remote\<close> runs the clone and,
  if it succeeds, the checkout of the branch, and nothing else. Otherwise it runs the reset
  of deleted files (an error there ends the run), then asks for the porcelain status in
  the history the reset left, then, exactly when that status is dirty, the save of local
  changes, and then the pull; the first error ends the run where it occurs.
\<close>

theorem pull_from_remote_order:
  "(\<not> path_exists e h (repo_dir self) \<longrightarrow>
      (let clone = Popen (clone_cmd self) None;
           checkout = Popen (checkout_cmd self) (in_repo self);
           P = pull_from_remote e self h
       in (returncode e h clone = 0 \<longrightarrow>
             hist_of P = h @ [clone, checkout]
           \<and> err_of P = failure e (h @ [clone]) (checkout_cmd self) (in_repo self))
        \<and> (returncode e h clone \<noteq> 0 \<longrightarrow>
             hist_of P = h @ [clone] \<and> err_of P = failure e h (clone_cmd self) None)))
   \<and> (path_exists e h (repo_dir self) \<longrightarrow>
      (let R = reset_deleted_files e self h;
           hq = hist_of R @ [CheckOutput porcelain_cmd (in_repo self)];
           D = fst (repo_is_dirty e self (hist_of R));
           S = save_local_changes e self hq;
           P = pull_from_remote e self h
       in (err_of R \<noteq> None \<longrightarrow> P = R)
        \<and> (err_of R = None \<longrightarrow>
             (\<forall>x. D = Inl x \<longrightarrow> hist_of P = hq \<and> err_of P = Some x)
           \<and> (D = Inr False \<longrightarrow>
                 hist_of P = hist_of (pull_and_resolve_conflicts e self hq)
               \<and> err_of P = err_of (pull_and_resolve_conflicts e self hq))
           \<and> (D = Inr True \<and> err_of S \<noteq> None \<longrightarrow> hist_of P = hist_of S \<and> err_of P = err_of S)
           \<and> (D = Inr True \<and> err_of S = None \<longrightarrow>
                 hist_of S = hq @ [Popen (checkout_cmd self) (in_repo self)] @ commit_calls self
               \<and> hist_of P = hist_of (pull_and_resolve_conflicts e self (hist_of S))
               \<and> err_of P = err_of (pull_and_resolve_conflicts e self (hist_of S))))))"
proof (intro conjI impI)
  assume "\<not> path_exists e h (repo_dir self)"
  then have "pull_from_remote e self h = initialize_repo e self h"
    by (simp add: pull_from_remote_def)
  then show "let clone = Popen (clone_cmd self) None;
           checkout = Popen (checkout_cmd self) (in_repo self);
           P = pull_from_remote e self h
       in (returncode e h clone = 0 \<longrightarrow>
             hist_of P = h @ [clone, checkout]
           \<and> err_of P = failure e (h @ [clone]) (checkout_cmd self) (in_repo self))
        \<and> (returncode e h clone \<noteq> 0 \<longrightarrow>
             hist_of P = h @ [clone] \<and> err_of P = failure e h (clone_cmd self) None)"
    by (simp add: Let_def initialize_repo_hist initialize_repo_err)
next
  assume "path_exists e h (repo_dir self)"
  then have P: "pull_from_remote e self h = update_repo e self h"
    by (simp add: pull_from_remote_def)
  show "let R = reset_deleted_files e self h;
           hq = hist_of R @ [CheckOutput porcelain_cmd (in_repo self)];
           D = fst (repo_is_dirty e self (hist_of R));
           S = save_local_changes e self hq;
           P = pull_from_remote e self h
       in (err_of R \<noteq> None \<longrightarrow> P = R)
        \<and> (err_of R = None \<longrightarrow>
             (\<forall>x. D = Inl x \<longrightarrow> hist_of P = hq \<and> err_of P = Some x)
           \<and> (D = Inr False \<longrightarrow>
                 hist_of P = hist_of (pull_and_resolve_conflicts e self hq)
               \<and> err_of P = err_of (pull_and_resolve_conflicts e self hq))
           \<and> (D = Inr True \<and> err_of S \<noteq> None \<longrightarrow> hist_of P = hist_of S \<and> err_of P = err_of S)
           \<and> (D = Inr True \<and> err_of S = None \<longrightarrow>
                 hist_of S = hq @ [Popen (checkout_cmd self) (in_repo self)] @ commit_calls self
               \<and> hist_of P = hist_of (pull_and_resolve_conflicts e self (hist_of S))
               \<and> err_of P = err_of (pull_and_resolve_conflicts e self (hist_of S))))"
    unfolding P update_repo_run[of e self h] Let_def
    by (auto simp: then_gen_hist then_gen_err save_local_changes_ok split: option.splits)
qed

lemma merge_script_values:
  "merge_script m c (checkout_cmd sample_repo) = 0"
  "merge_script m c fetch_cmd = 0"
  "merge_script m c (merge_cmd sample_repo) = m"
  "merge_script m c add_cmd = 0"
  "merge_script m c config_email_cmd = 0"
  "merge_script m c config_name_cmd = 0"
  "merge_script m c commit_cmd = c"
  by (simp_all add: merge_script_def cmd_defs)

lemma conflict_env_returncode:
  "returncode (conflict_env s) h (Popen (merge_cmd sample_repo) (in_repo sample_repo)) =
     (if Popen (merge_cmd sample_repo) (in_repo sample_repo) \<in> set h then s else 1)"
  "cmd \<noteq> merge_cmd sample_repo \<Longrightarrow> returncode (conflict_env s) h (Popen cmd cwd) = 0"
  by (simp_all add: conflict_env_def ascii_env_def returncode_def)

lemma sample_cmds_distinct:
  "checkout_cmd sample_repo \<noteq> merge_cmd sample_repo"
  "fetch_cmd \<noteq> merge_cmd sample_repo"
  "add_cmd \<noteq> merge_cmd sample_repo"
  "config_email_cmd \<noteq> merge_cmd sample_repo"
  "config_name_cmd \<noteq> merge_cmd sample_repo"
  "commit_cmd \<noteq> merge_cmd sample_repo"
  "merge_cmd sample_repo \<noteq> checkout_cmd sample_repo"
  "merge_cmd sample_repo \<noteq> fetch_cmd"
  "merge_cmd sample_repo \<noteq> add_cmd"
  "merge_cmd sample_repo \<noteq> config_email_cmd"
  "merge_cmd sample_repo \<noteq> config_name_cmd"
  "merge_cmd sample_repo \<noteq> commit_cmd"
  by (simp_all add: cmd_defs)

lemma make_commit_run:
  "hist_of (make_commit e self h) =
     (if returncode e h (Popen add_cmd (in_repo self)) \<noteq> 0 then h @ take 1 (commit_calls self)
      else if returncode e (h @ take 1 (commit_calls self)) (Popen config_email_cmd (in_repo self)) \<noteq> 0
        then h @ take 2 (commit_calls self)
      else if returncode e (h @ take 2 (commit_calls self)) (Popen config_name_cmd (in_repo self)) \<noteq> 0
        then h @ take 3 (commit_calls self)
      else h @ commit_calls self)"
  "err_of (make_commit e self h) =
     (if returncode e h (Popen add_cmd (in_repo self)) \<noteq> 0 then failure e h add_cmd (in_repo self)
      else if returncode e (h @ take 1 (commit_calls self)) (Popen config_email_cmd (in_repo self)) \<noteq> 0
        then failure e (h @ take 1 (commit_calls self)) config_email_cmd (in_repo self)
      else if returncode e (h @ take 2 (commit_calls self)) (Popen config_name_cmd (in_repo self)) \<noteq> 0
        then failure e (h @ take 2 (commit_calls self)) config_name_cmd (in_repo self)
      else failure e (h @ take 3 (commit_calls self)) commit_cmd (in_repo self))"
  by (simp_all add: make_commit_def gen_simps commit_calls_def)

theorem merge_conflict_single_retry_witness:
  "hist_of (pull_and_resolve_conflicts (conflict_env 1) sample_repo []) =
     [Popen (checkout_cmd sample_repo) (in_repo sample_repo), Popen fetch_cmd (in_repo sample_repo)] @
     [Popen (merge_cmd sample_repo) (in_repo sample_repo)] @ commit_calls sample_repo @
     [Popen (merge_cmd sample_repo) (in_repo sample_repo)]
   \<and> err_of (pull_and_resolve_conflicts (conflict_env 1) sample_repo []) =
       Some (CalledProcessError 1 (merge_cmd sample_repo))
   \<and> hist_of (pull_and_resolve_conflicts (scripted [] (merge_script 2 0)) sample_repo []) =
     [Popen (checkout_cmd sample_repo) (in_repo sample_repo), Popen fetch_cmd (in_repo sample_repo),
      Popen (merge_cmd sample_repo) (in_repo sample_repo)]
   \<and> err_of (pull_and_resolve_conflicts (scripted [] (merge_script 2 0)) sample_repo []) =
       Some (CalledProcessError 2 (merge_cmd sample_repo))
   \<and> err_of (pull_and_resolve_conflicts (scripted [] (merge_script 0 0)) sample_repo []) = None
   \<and> err_of (pull_and_resolve_conflicts (scripted [] (merge_script 1 1)) sample_repo []) =
       Some (CalledProcessError 1 commit_cmd)"
proof -
  let ?co = "Popen (checkout_cmd sample_repo) (in_repo sample_repo)"
  let ?m = "Popen (merge_cmd sample_repo) (in_repo sample_repo)"
  have c1: "returncode (conflict_env 1) [] ?co = 0"
    and c2: "returncode (conflict_env 1) ([] @ [?co]) (Popen fetch_cmd (in_repo sample_repo)) = 0"
    by (simp_all add: conflict_env_returncode sample_cmds_distinct)
  have s1: "\<And>m c. returncode (scripted [] (merge_script m c)) [] ?co = 0"
    and s2: "\<And>m c. returncode (scripted [] (merge_script m c)) ([] @ [?co]) (Popen fetch_cmd (in_repo sample_repo)) = 0"
    by (simp_all add: merge_script_values)
  have commit_ok: "err_of (make_commit (conflict_env 1) sample_repo
      [?co, Popen fetch_cmd (in_repo sample_repo), ?m]) = None"
    by (simp add: make_commit_run conflict_env_returncode sample_cmds_distinct failure_def)
  have commit_fails: "err_of (make_commit (scripted [] (merge_script 1 1)) sample_repo
      [?co, Popen fetch_cmd (in_repo sample_repo), ?m]) = Some (CalledProcessError 1 commit_cmd)"
    by (simp add: make_commit_run merge_script_values failure_def)
  have retry: "failure (conflict_env 1)
      ([?co, Popen fetch_cmd (in_repo sample_repo)] @ [?m] @ commit_calls sample_repo)
      (merge_cmd sample_repo) (in_repo sample_repo) = Some (CalledProcessError 1 (merge_cmd sample_repo))"
    by (simp add: failure_def conflict_env_returncode)
  from merge_conflict_single_retry[OF c1 c2] commit_ok retry
  have A: "hist_of (pull_and_resolve_conflicts (conflict_env 1) sample_repo []) =
     [?co, Popen fetch_cmd (in_repo sample_repo)] @ [?m] @ commit_calls sample_repo @ [?m]
   \<and> err_of (pull_and_resolve_conflicts (conflict_env 1) sample_repo []) =
       Some (CalledProcessError 1 (merge_cmd sample_repo))"
    by (simp add: Let_def conflict_env_returncode sample_cmds_distinct)
  from merge_conflict_single_retry[OF s1 s2, of 2 0]
  have B: "hist_of (pull_and_resolve_conflicts (scripted [] (merge_script 2 0)) sample_repo []) =
     [?co, Popen fetch_cmd (in_repo sample_repo), ?m]
   \<and> err_of (pull_and_resolve_conflicts (scripted [] (merge_script 2 0)) sample_repo []) =
       Some (CalledProcessError 2 (merge_cmd sample_repo))"
    by (simp add: Let_def merge_script_values)
  from merge_conflict_single_retry[OF s1 s2, of 0 0]
  have C: "err_of (pull_and_resolve_conflicts (scripted [] (merge_script 0 0)) sample_repo []) = None"
    by (simp add: Let_def merge_script_values)
  from merge_conflict_single_retry[OF s1 s2, of 1 1] commit_fails
  have D: "err_of (pull_and_resolve_conflicts (scripted [] (merge_script 1 1)) sample_repo []) =
       Some (CalledProcessError 1 commit_cmd)"
    by (simp add: Let_def merge_script_values)
  from A B C D show ?thesis by simp
qed

lemma pull_ok_run:
  "hist_of (pull_and_resolve_conflicts (scripted st ok_script) self h) =
     h @ [Popen (checkout_cmd self) (in_repo self), Popen fetch_cmd (in_repo self),
          Popen (merge_cmd self) (in_repo self)]"
  "err_of (pull_and_resolve_conflicts (scripted st ok_script) self h) = None"
  by (simp_all add: pull_and_resolve_conflicts_def gen_simps ok_script_def)

lemma no_deleted_in_status_modified: "findall_deleted 0 (ustr status_modified) = []"
  by (simp add: status_modified_def deleted_match_here_def bNL_def)

lemma status_modified_dirty: "modified_search True (ustr status_modified)"
  by (simp add: status_modified_def isspace_def letter_M_def)

lemma reset_nothing:
  "findall_deleted 0 (ustr st) = [] \<Longrightarrow>
   reset_deleted_files (scripted st rc) self h = ([], h @ [CheckOutput status_cmd (in_repo self)], None)"
  by (simp add: reset_deleted_files_def check_output_def pass_def)

lemma dirty_scripted:
  "fst (repo_is_dirty (scripted st rc) self h) = Inr (modified_search True (ustr st))"
  by (simp add: repo_is_dirty_def check_output_def)

lemma status_cmds_differ: "status_cmd \<noteq> porcelain_cmd" "porcelain_cmd \<noteq> status_cmd"
  by (simp_all add: status_cmd_def porcelain_cmd_def git_def)

theorem pull_from_remote_order_witness:
  "hist_of (pull_from_remote fresh_env sample_repo []) =
     [Popen (clone_cmd sample_repo) None, Popen (checkout_cmd sample_repo) (in_repo sample_repo)]
   \<and> err_of (pull_from_remote fresh_env sample_repo []) = None
   \<and> hist_of (pull_from_remote (scripted [] ok_script) sample_repo []) =
     [CheckOutput status_cmd (in_repo sample_repo), CheckOutput porcelain_cmd (in_repo sample_repo),
      Popen (checkout_cmd sample_repo) (in_repo sample_repo), Popen fetch_cmd (in_repo sample_repo),
      Popen (merge_cmd sample_repo) (in_repo sample_repo)]
   \<and> err_of (pull_from_remote (scripted [] ok_script) sample_repo []) = None
   \<and> hist_of (pull_from_remote (scripted status_modified ok_script) sample_repo []) =
     [CheckOutput status_cmd (in_repo sample_repo), CheckOutput porcelain_cmd (in_repo sample_repo),
      Popen (checkout_cmd sample_repo) (in_repo sample_repo)] @ commit_calls sample_repo @
     [Popen (checkout_cmd sample_repo) (in_repo sample_repo), Popen fetch_cmd (in_repo sample_repo),
      Popen (merge_cmd sample_repo) (in_repo sample_repo)]
   \<and> err_of (pull_from_remote (scripted status_modified ok_script) sample_repo []) = None
   \<and> hist_of (pull_from_remote broken_env sample_repo []) = [Popen (clone_cmd sample_repo) None]
   \<and> err_of (pull_from_remote broken_env sample_repo []) = Some (CalledProcessError 128 (clone_cmd sample_repo))
   \<and> pull_from_remote (status_failing status_cmd) sample_repo [] =
       ([], [CheckOutput status_cmd (in_repo sample_repo)], Some (CalledProcessError 128 status_cmd))
   \<and> hist_of (pull_from_remote (status_failing porcelain_cmd) sample_repo []) =
       [CheckOutput status_cmd (in_repo sample_repo), CheckOutput porcelain_cmd (in_repo sample_repo)]
   \<and> err_of (pull_from_remote (status_failing porcelain_cmd) sample_repo []) =
       Some (CalledProcessError 128 porcelain_cmd)
   \<and> hist_of (pull_from_remote (scripted status_modified (merge_script 0 1)) sample_repo []) =
       [CheckOutput status_cmd (in_repo sample_repo), CheckOutput porcelain_cmd (in_repo sample_repo),
        Popen (checkout_cmd sample_repo) (in_repo sample_repo)] @ commit_calls sample_repo
   \<and> err_of (pull_from_remote (scripted status_modified (merge_script 0 1)) sample_repo []) =
       Some (CalledProcessError 1 commit_cmd)"
proof -
  have fresh: "\<not> path_exists fresh_env [] (repo_dir sample_repo)"
    "returncode fresh_env [] (Popen (clone_cmd sample_repo) None) = 0"
    "failure fresh_env ([] @ [Popen (clone_cmd sample_repo) None]) (checkout_cmd sample_repo) (in_repo sample_repo) = None"
    by (simp_all add: fresh_env_def ascii_env_def returncode_def)
  from pull_from_remote_order[of fresh_env "[]" sample_repo] fresh
  have A: "hist_of (pull_from_remote fresh_env sample_repo []) =
     [Popen (clone_cmd sample_repo) None, Popen (checkout_cmd sample_repo) (in_repo sample_repo)]
   \<and> err_of (pull_from_remote fresh_env sample_repo []) = None"
    by (simp add: Let_def)
  have ex: "\<And>st. path_exists (scripted st ok_script) [] (repo_dir sample_repo)" by simp
  have clean: "reset_deleted_files (scripted [] ok_script) sample_repo [] =
      ([], [] @ [CheckOutput status_cmd (in_repo sample_repo)], None)"
    by (rule reset_nothing) simp
  have not_dirty: "fst (repo_is_dirty (scripted [] ok_script) sample_repo
      [CheckOutput status_cmd (in_repo sample_repo)]) = Inr False"
    by (simp add: dirty_scripted)
  from pull_from_remote_order[of "scripted [] ok_script" "[]" sample_repo] ex clean not_dirty
  have B: "hist_of (pull_from_remote (scripted [] ok_script) sample_repo []) =
     [CheckOutput status_cmd (in_repo sample_repo), CheckOutput porcelain_cmd (in_repo sample_repo),
      Popen (checkout_cmd sample_repo) (in_repo sample_repo), Popen fetch_cmd (in_repo sample_repo),
      Popen (merge_cmd sample_repo) (in_repo sample_repo)]
   \<and> err_of (pull_from_remote (scripted [] ok_script) sample_repo []) = None"
    by (simp add: Let_def pull_ok_run)
  have modified: "reset_deleted_files (scripted status_modified ok_script) sample_repo [] =
      ([], [] @ [CheckOutput status_cmd (in_repo sample_repo)], None)"
    by (rule reset_nothing) (rule no_deleted_in_status_modified)
  have dirty: "fst (repo_is_dirty (scripted status_modified ok_script) sample_repo
      [CheckOutput status_cmd (in_repo sample_repo)]) = Inr True"
    by (simp add: dirty_scripted status_modified_dirty)
  have saved: "err_of (save_local_changes (scripted status_modified ok_script) sample_repo
      [CheckOutput status_cmd (in_repo sample_repo), CheckOutput porcelain_cmd (in_repo sample_repo)]) = None"
    by (simp add: save_local_changes_def then_gen_err make_commit_run ok_script_def failure_def)
  from pull_from_remote_order[of "scripted status_modified ok_script" "[]" sample_repo] ex modified dirty saved
  have C: "hist_of (pull_from_remote (scripted status_modified ok_script) sample_repo []) =
     [CheckOutput status_cmd (in_repo sample_repo), CheckOutput porcelain_cmd (in_repo sample_repo),
      Popen (checkout_cmd sample_repo) (in_repo sample_repo)] @ commit_calls sample_repo @
     [Popen (checkout_cmd sample_repo) (in_repo sample_repo), Popen fetch_cmd (in_repo sample_repo),
      Popen (merge_cmd sample_repo) (in_repo sample_repo)]
   \<and> err_of (pull_from_remote (scripted status_modified ok_script) sample_repo []) = None"
    by (simp add: Let_def pull_ok_run)

  have broken: "\<not> path_exists broken_env [] (repo_dir sample_repo)"
    "returncode broken_env [] (Popen (clone_cmd sample_repo) None) = 128"
    by (simp_all add: broken_env_def ascii_env_def returncode_def)
  from pull_from_remote_order[of broken_env "[]" sample_repo] broken
  have E: "hist_of (pull_from_remote broken_env sample_repo []) = [Popen (clone_cmd sample_repo) None]
   \<and> err_of (pull_from_remote broken_env sample_repo []) = Some (CalledProcessError 128 (clone_cmd sample_repo))"
    by (simp add: Let_def failure_def)
  have ex2: "\<And>c. path_exists (status_failing c) [] (repo_dir sample_repo)"
    by (simp add: status_failing_def ascii_env_def)
  have no_status: "reset_deleted_files (status_failing status_cmd) sample_repo [] =
      ([], [CheckOutput status_cmd (in_repo sample_repo)], Some (CalledProcessError 128 status_cmd))"
    by (simp add: reset_deleted_files_def check_output_def status_failing_def ascii_env_def)
  from pull_from_remote_order[of "status_failing status_cmd" "[]" sample_repo] ex2 no_status
  have F: "pull_from_remote (status_failing status_cmd) sample_repo [] =
       ([], [CheckOutput status_cmd (in_repo sample_repo)], Some (CalledProcessError 128 status_cmd))"
    by (simp add: Let_def)
  have status_ok: "reset_deleted_files (status_failing porcelain_cmd) sample_repo [] =
      ([], [CheckOutput status_cmd (in_repo sample_repo)], None)"
    by (simp add: reset_deleted_files_def check_output_def status_failing_def ascii_env_def
          status_cmds_differ pass_def)
  have no_porcelain: "fst (repo_is_dirty (status_failing porcelain_cmd) sample_repo
      [CheckOutput status_cmd (in_repo sample_repo)]) = Inl (CalledProcessError 128 porcelain_cmd)"
    by (simp add: repo_is_dirty_def check_output_def status_failing_def ascii_env_def)
  from pull_from_remote_order[of "status_failing porcelain_cmd" "[]" sample_repo] ex2 status_ok no_porcelain
  have G: "hist_of (pull_from_remote (status_failing porcelain_cmd) sample_repo []) =
       [CheckOutput status_cmd (in_repo sample_repo), CheckOutput porcelain_cmd (in_repo sample_repo)]
   \<and> err_of (pull_from_remote (status_failing porcelain_cmd) sample_repo []) =
       Some (CalledProcessError 128 porcelain_cmd)"
    by (simp add: Let_def)
  let ?e = "scripted status_modified (merge_script 0 1)"
  have ex': "path_exists ?e [] (repo_dir sample_repo)" by simp
  have modified2: "reset_deleted_files ?e sample_repo [] =
      ([], [] @ [CheckOutput status_cmd (in_repo sample_repo)], None)"
    by (rule reset_nothing) (rule no_deleted_in_status_modified)
  have dirty2: "fst (repo_is_dirty ?e sample_repo [CheckOutput status_cmd (in_repo sample_repo)]) = Inr True"
    by (simp add: dirty_scripted status_modified_dirty)
  have save_hist: "hist_of (save_local_changes ?e sample_repo
      [CheckOutput status_cmd (in_repo sample_repo), CheckOutput porcelain_cmd (in_repo sample_repo)]) =
      [CheckOutput status_cmd (in_repo sample_repo), CheckOutput porcelain_cmd (in_repo sample_repo),
       Popen (checkout_cmd sample_repo) (in_repo sample_repo)] @ commit_calls sample_repo"
    by (simp add: save_local_changes_def then_gen_hist make_commit_run merge_script_values failure_def)
  have save_err: "err_of (save_local_changes ?e sample_repo
      [CheckOutput status_cmd (in_repo sample_repo), CheckOutput porcelain_cmd (in_repo sample_repo)]) =
      Some (CalledProcessError 1 commit_cmd)"
    by (simp add: save_local_changes_def then_gen_err make_commit_run merge_script_values failure_def)
  from pull_from_remote_order[of ?e "[]" sample_repo] ex' modified2 dirty2 save_hist save_err
  have H: "hist_of (pull_from_remote ?e sample_repo []) =
       [CheckOutput status_cmd (in_repo sample_repo), CheckOutput porcelain_cmd (in_repo sample_repo),
        Popen (checkout_cmd sample_repo) (in_repo sample_repo)] @ commit_calls sample_repo
   \<and> err_of (pull_from_remote ?e sample_repo []) = Some (CalledProcessError 1 commit_cmd)"
    by (simp add: Let_def)
  from A B C E F G H show ?thesis by simp
qed

end
